theory Spec2Isabelle
  imports Complex_Main
begin

section \<open>Collocation integrator: data model\<close>

text \<open>
  The integrator of \<^verbatim>\<open>casadi/solvers/collocation.cpp\<close> works on dense column vectors
  of doubles, as symbolic expressions (setupFG) and as buffers (reset). A vector is a
  list of reals here: the arithmetic is the exact one that the expressions denote, and
  rounding is not modelled. \<^verbatim>\<open>vec\<close> and \<^verbatim>\<open>reshape\<close> keep the entries of a
  column in their order and do not appear in the model.
\<close>

type_synonym vec = "real list"

text \<open>
  Modelled from the spec: \<^verbatim>\<open>vertcat\<close> is a function of the expression library, not
  of the source file. Section 4.4 of the specification calls \<^verbatim>\<open>vertcat(x0, z0)\<close>
  concat(x0, z0): the entries of x0 followed by those of z0.
\<close>

definition vertcat :: "vec \<Rightarrow> vec \<Rightarrow> vec" where
  "vertcat a b = a @ b"

text \<open>
  Modelled from the spec: \<^verbatim>\<open>repmat\<close> is a function of the expression library, not of
  the source file. By section 4.4 the initial guess replicates concat(x0, z0) into every
  one of the d blocks: \<^verbatim>\<open>repmat(x, n)\<close> is n copies of the column x, one below the
  other.
\<close>

definition repmat :: "vec \<Rightarrow> nat \<Rightarrow> vec" where
  "repmat x n = concat (replicate n x)"

text \<open>
  The slice of the expression library (not part of the source file, and not described
  by the specification): \<^verbatim>\<open>Z(Slice(start, stop))\<close> holds the entries of Z with index
  start, ..., stop - 1. The indices are signed integers in the source; the model gives
  no rows when the range does not lie in the vector.
\<close>

definition Slice :: "int \<Rightarrow> int \<Rightarrow> vec \<Rightarrow> vec" where
  "Slice start stop Z =
     (if 0 \<le> start \<and> start \<le> stop \<and> stop \<le> int (length Z)
      then take (nat (stop - start)) (drop (nat start) Z) else [])"

text \<open>
  The block of node j (1 \<le> j \<le> d) in a stacked vector of interior unknowns: the
  differential part and the algebraic part. These two follow the layout
  (x_1, z_1, ..., x_d, z_d) of the specification and are what the theorems compare the
  code with.
\<close>

definition node_x :: "nat \<Rightarrow> nat \<Rightarrow> vec \<Rightarrow> nat \<Rightarrow> vec" where
  "node_x nx nz v j = take nx (drop ((j - 1) * (nx + nz)) v)"

definition node_z :: "nat \<Rightarrow> nat \<Rightarrow> vec \<Rightarrow> nat \<Rightarrow> vec" where
  "node_z nx nz v j = take nz (drop ((j - 1) * (nx + nz) + nx) v)"

section \<open>Initial guess and output of the algebraic state\<close>

text \<open>
  \<^verbatim>\<open>
  MX Collocation::algebraic_state_init(const MX& x0, const MX& z0) const {
    MX ret = vertcat(x0, z0);
    return repmat(ret, deg_);
  }
  MX Collocation::algebraic_state_output(const MX& Z) const {
    return Z(Slice(Z.size1()-nz_, Z.size1()));
  }
  \<close>
\<close>

definition algebraic_state_init :: "nat \<Rightarrow> vec \<Rightarrow> vec \<Rightarrow> vec" where
  "algebraic_state_init deg x0 z0 = (let ret = vertcat x0 z0 in repmat ret deg)"

definition algebraic_state_output :: "nat \<Rightarrow> vec \<Rightarrow> vec" where
  "algebraic_state_output nz Z = Slice (int (length Z) - int nz) (int (length Z)) Z"

text \<open>The memory of a run holds the buffers v and rv of interior unknowns.\<close>

record FixedStepMemory =
  m_v :: vec
  m_rv :: vec

text \<open>
  Modelled from the spec: \<^verbatim>\<open>casadi_copy\<close> is a function of the runtime, not of the
  source file. By section 4.4 reset copies x0 and z0 into the blocks of v:
  \<^verbatim>\<open>casadi_copy(x, n, y)\<close> writes the first n entries of x to y[0], ..., y[n-1]. The
  destination pointer is a buffer with an offset.
\<close>

definition casadi_copy :: "vec \<Rightarrow> nat \<Rightarrow> vec \<Rightarrow> nat \<Rightarrow> vec" where
  "casadi_copy x n buf off = fold (\<lambda>i b. b[off + i := x ! i]) [0..<n] buf"

text \<open>
  \<^verbatim>\<open>
  double* v = m->v;
  for (casadi_int d = 0; d < deg_; ++d) {
    casadi_copy(x, nx_, v);
    v += nx_;
    casadi_copy(z, nz_, v);
    v += nz_;
  }
  \<close>
  The loop state is the buffer and the position of the moving pointer in it.
\<close>

definition guess_step :: "vec \<Rightarrow> nat \<Rightarrow> vec \<Rightarrow> nat \<Rightarrow> vec \<times> nat \<Rightarrow> vec \<times> nat" where
  "guess_step x nx z nz s =
     (let buf = casadi_copy x nx (fst s) (snd s);
          off = snd s + nx;
          buf = casadi_copy z nz buf off;
          off = off + nz
      in (buf, off))"

definition guess_loop :: "nat \<Rightarrow> vec \<Rightarrow> nat \<Rightarrow> vec \<Rightarrow> nat \<Rightarrow> vec \<Rightarrow> vec" where
  "guess_loop deg x nx z nz buf =
     fst (fold (\<lambda>d s. guess_step x nx z nz s) [0..<deg] (buf, 0))"

text \<open>
  reset and resetB first run the reset of the base class, which is not part of this
  file and is a parameter here; then they fill v (or rv).
\<close>

definition reset ::
  "(FixedStepMemory \<Rightarrow> FixedStepMemory) \<Rightarrow> nat \<Rightarrow> nat \<Rightarrow> nat \<Rightarrow>
   FixedStepMemory \<Rightarrow> vec \<Rightarrow> vec \<Rightarrow> FixedStepMemory" where
  "reset base_reset deg nx nz mem x z =
     (let m = base_reset mem
      in m\<lparr>m_v := guess_loop deg x nx z nz (m_v m)\<rparr>)"

definition resetB ::
  "(FixedStepMemory \<Rightarrow> FixedStepMemory) \<Rightarrow> nat \<Rightarrow> nat \<Rightarrow> nat \<Rightarrow>
   FixedStepMemory \<Rightarrow> vec \<Rightarrow> vec \<Rightarrow> FixedStepMemory" where
  "resetB base_resetB deg nrx nrz mem rx rz =
     (let m = base_resetB mem
      in m\<lparr>m_rv := guess_loop deg rx nrx rz nrz (m_rv m)\<rparr>)"

section \<open>Polynomial basis\<close>

text \<open>
  Modelled from the spec: the class Polynomial (\<^verbatim>\<open>casadi/core/polynomial.hpp\<close>) is
  used by the source file and is not part of it. By section 3 of the specification a
  polynomial is an ordered coefficient list, low to high degree, with evaluation at a
  scalar, multiplication, derivative and antiderivative.
\<close>

type_synonym Polynomial = "real list"

text \<open>
  Modelled from the spec: the constant polynomial of \<^verbatim>\<open>Polynomial p = 1\<close>, a
  coefficient list with one entry.
\<close>

definition Polynomial_const :: "real \<Rightarrow> Polynomial" where
  "Polynomial_const c = [c]"

text \<open>
  Modelled from the spec: \<^verbatim>\<open>Polynomial(p0, p1)\<close> is the polynomial p0 + p1 x, the
  coefficient list of a linear factor of the Lagrange basis of section 4.1.
\<close>

definition Polynomial_linear :: "real \<Rightarrow> real \<Rightarrow> Polynomial" where
  "Polynomial_linear p0 p1 = [p0, p1]"

text \<open>
  Modelled from the spec: evaluation at a scalar (\<^verbatim>\<open>p(x)\<close>) of a coefficient list,
  low to high degree.
\<close>

fun poly_eval :: "Polynomial \<Rightarrow> real \<Rightarrow> real" where
  "poly_eval [] x = 0"
| "poly_eval (a # p) x = a + x * poly_eval p x"

text \<open>
  Modelled from the spec: the sum of two coefficient lists, which the product needs.
\<close>

fun poly_add :: "Polynomial \<Rightarrow> Polynomial \<Rightarrow> Polynomial" where
  "poly_add [] q = q"
| "poly_add p [] = p"
| "poly_add (a # p) (b # q) = (a + b) # poly_add p q"

text \<open>
  Modelled from the spec: the product of two polynomials (\<^verbatim>\<open>p *= q\<close>), on
  coefficient lists.
\<close>

fun poly_mul :: "Polynomial \<Rightarrow> Polynomial \<Rightarrow> Polynomial" where
  "poly_mul [] q = []"
| "poly_mul (a # p) q = poly_add (map (\<lambda>b. a * b) q) (0 # poly_mul p q)"

text \<open>
  Modelled from the spec: a polynomial divided by a scalar (\<^verbatim>\<open>p / c\<close>), which scales
  every coefficient; section 4.1 builds L_j as a product of such quotients.
\<close>

definition poly_div_scalar :: "Polynomial \<Rightarrow> real \<Rightarrow> Polynomial" where
  "poly_div_scalar p c = map (\<lambda>a. a / c) p"

text \<open>
  Modelled from the spec: the derivative of a polynomial, on coefficient lists: the
  coefficient of x^k is (k + 1) times the coefficient of x^(k+1).
\<close>

definition derivative :: "Polynomial \<Rightarrow> Polynomial" where
  "derivative p = map (\<lambda>k. real (Suc k) * p ! Suc k) [0..<length p - 1]"

text \<open>
  Modelled from the spec: the antiderivative of a polynomial; by section 4.1 its
  constant is fixed so that its value at 0 is 0.
\<close>

definition anti_derivative :: "Polynomial \<Rightarrow> Polynomial" where
  "anti_derivative p = 0 # map (\<lambda>k. p ! k / real (Suc k)) [0..<length p]"

text \<open>The coefficient of x^k, which is 0 beyond the end of the list.\<close>

definition coeff :: "Polynomial \<Rightarrow> nat \<Rightarrow> real" where
  "coeff p k = (if k < length p then p ! k else 0)"

text \<open>
  The j-th Lagrange basis polynomial over the nodes tau_root[0..d], as a function: the
  product over r \<noteq> j of (x - tau_root[r]) / (tau_root[j] - tau_root[r]). This is the
  L_j of the specification; the theorems compare the coefficients computed by the
  code with it.
\<close>

definition lagrange_basis :: "real list \<Rightarrow> nat \<Rightarrow> nat \<Rightarrow> real \<Rightarrow> real" where
  "lagrange_basis tau_root d j x =
     (\<Prod>r\<leftarrow>filter (\<lambda>r. r \<noteq> j) [0..<d + 1].
        (x - tau_root ! r) / (tau_root ! j - tau_root ! r))"

section \<open>Coefficients of the scheme\<close>

text \<open>
  \<^verbatim>\<open>
  Polynomial p = 1;
  for (casadi_int r=0; r<deg_+1; ++r) {
    if (r!=j) {
      p *= Polynomial(-tau_root[r], 1)/(tau_root[j]-tau_root[r]);
    }
  }
  \<close>
\<close>

definition lagrange_poly :: "real list \<Rightarrow> nat \<Rightarrow> nat \<Rightarrow> Polynomial" where
  "lagrange_poly tau_root deg j =
     fold (\<lambda>r p. if r \<noteq> j
                 then poly_mul p (poly_div_scalar (Polynomial_linear (- tau_root ! r) 1)
                                    (tau_root ! j - tau_root ! r))
                 else p)
       [0..<deg + 1] (Polynomial_const 1)"

record Coefficients =
  coef_C :: "real list list"
  coef_D :: "real list"
  coef_B :: "real list"

text \<open>
  One round of the loop over the collocation points j = 0, ..., deg:
  \<^verbatim>\<open>
  if (collocation_scheme_=="radau") {
    D[j] = j==deg_ ? 1 : 0;
  } else {
    D[j] = p(1.0);
  }
  Polynomial dp = p.derivative();
  for (casadi_int r=0; r<deg_+1; ++r) {
    C[j][r] = dp(tau_root[r]);
  }
  Polynomial ip = p.anti_derivative();
  B[j] = ip(1.0);
  \<close>
\<close>

definition coefficients_step ::
  "real list \<Rightarrow> string \<Rightarrow> nat \<Rightarrow> nat \<Rightarrow> Coefficients \<Rightarrow> Coefficients" where
  "coefficients_step tau_root scheme deg j cf =
     (let p = lagrange_poly tau_root deg j;
          D = (coef_D cf)[j := (if scheme = ''radau'' then (if j = deg then 1 else 0)
                                else poly_eval p 1)];
          dp = derivative p;
          C = fold (\<lambda>r C. C[j := (C ! j)[r := poly_eval dp (tau_root ! r)]])
                [0..<deg + 1] (coef_C cf);
          ip = anti_derivative p;
          B = (coef_B cf)[j := poly_eval ip 1]
      in \<lparr>coef_C = C, coef_D = D, coef_B = B\<rparr>)"

text \<open>
  C, D and B start as zero arrays of size deg + 1 (C a square matrix); tau_root is the
  vector of collocation points with a 0 put in front.
\<close>

definition collocation_coefficients :: "real list \<Rightarrow> string \<Rightarrow> nat \<Rightarrow> Coefficients" where
  "collocation_coefficients tau_root scheme deg =
     fold (coefficients_step tau_root scheme deg) [0..<deg + 1]
       \<lparr>coef_C = replicate (deg + 1) (replicate (deg + 1) 0),
        coef_D = replicate (deg + 1) 0,
        coef_B = replicate (deg + 1) 0\<rparr>"

section \<open>Symbolic vectors\<close>

text \<open>
  The expression type MX and its operators are not part of the source file. The sizes
  of the operands agree in setupFG by construction (every x_j has the size of x0, and
  the outputs of the DAE callable have their declared sizes); the theorems below assume
  these sizes, and say nothing about operands of different sizes.
\<close>

text \<open>
  Modelled from the spec: a scalar times a column (\<^verbatim>\<open>c * x\<close>), as in the terms
  C[r][j] x_r and (B[j] h) quad_j of section 4.2.
\<close>

definition scal :: "real \<Rightarrow> vec \<Rightarrow> vec" where
  "scal c x = map (\<lambda>a. c * a) x"

text \<open>
  Modelled from the spec: the entrywise sum of two columns (\<^verbatim>\<open>x + y\<close>,
  \<^verbatim>\<open>x += y\<close>), as in the sums of section 4.2.
\<close>

definition vadd :: "vec \<Rightarrow> vec \<Rightarrow> vec" where
  "vadd x y = map2 (+) x y"

text \<open>
  Modelled from the spec: the entrywise difference of two columns (\<^verbatim>\<open>x - y\<close>), as in
  the residual of section 4.2.
\<close>

definition vsub :: "vec \<Rightarrow> vec \<Rightarrow> vec" where
  "vsub x y = map2 (-) x y"

text \<open>
  Modelled from the spec: \<^verbatim>\<open>MX::zeros\<close>, the column of n zeros from which the
  quadrature sums of section 4.2 start.
\<close>

definition zeros :: "nat \<Rightarrow> vec" where
  "zeros n = replicate n 0"

text \<open>
  Modelled from the spec: \<^verbatim>\<open>vertsplit\<close> is a function of the expression library. By
  section 4.2 the stacked unknowns v are split into (x_j, z_j) for j = 1..d:
  \<^verbatim>\<open>vertsplit(v, offset)\<close> cuts a column at the given row offsets, piece i holding the
  rows offset[i], ..., offset[i+1] - 1.
\<close>

definition vertsplit :: "vec \<Rightarrow> nat list \<Rightarrow> vec list" where
  "vertsplit v offset =
     map (\<lambda>i. take (offset ! Suc i - offset ! i) (drop (offset ! i) v))
       [0..<length offset - 1]"

section \<open>Forward step\<close>

record dae_res =
  DAE_ODE :: vec
  DAE_ALG :: vec
  DAE_QUAD :: vec

text \<open>The DAE callable f, with inputs t, x, z, p, u.\<close>

type_synonym dae = "real \<Rightarrow> vec \<Rightarrow> vec \<Rightarrow> vec \<Rightarrow> vec \<Rightarrow> dae_res"

record fstep_in =
  FSTEP_T0 :: real
  FSTEP_H :: real
  FSTEP_X0 :: vec
  FSTEP_P :: vec
  FSTEP_U :: vec
  FSTEP_V0 :: vec

record fstep_out =
  FSTEP_XF :: vec
  FSTEP_VF :: vec
  FSTEP_QF :: vec

text \<open>
  \<^verbatim>\<open>
  std::vector<casadi_int> v_offset(1, 0);
  for (casadi_int d=0; d<deg_; ++d) {
    v_offset.push_back(v_offset.back()+nx_);
    v_offset.push_back(v_offset.back()+nz_);
  }
  \<close>
\<close>

definition v_offset :: "nat \<Rightarrow> nat \<Rightarrow> nat \<Rightarrow> nat list" where
  "v_offset deg nx nz =
     fold (\<lambda>d off. let off = off @ [last off + nx] in off @ [last off + nz]) [0..<deg] [0]"

text \<open>
  \<^verbatim>\<open>
  std::vector<MX> x(deg_+1), z(deg_+1);
  for (casadi_int d=1; d<=deg_; ++d) {
    x[d] = reshape(*vv_it++, size_in(INTEGRATOR_X0));
    z[d] = reshape(*vv_it++, size_in(INTEGRATOR_Z0));
  }
  \<close>
  The state of the loop is (x, z, position of the iterator in vv).
\<close>

definition collocated_step ::
  "vec list \<Rightarrow> nat \<Rightarrow> vec list \<times> vec list \<times> nat \<Rightarrow> vec list \<times> vec list \<times> nat" where
  "collocated_step vv d s =
     (case s of (x, z, it) \<Rightarrow> (x[d := vv ! it], z[d := vv ! Suc it], Suc (Suc it)))"

definition collocated_states :: "nat \<Rightarrow> vec list \<Rightarrow> vec list \<times> vec list \<times> nat" where
  "collocated_states deg vv =
     fold (collocated_step vv) [1..<deg + 1]
       (replicate (deg + 1) [], replicate (deg + 1) [], 0)"

text \<open>
  One round of the loop over the collocation points j = 1, ..., deg; the state is
  (eq, xf, qf):
  \<^verbatim>\<open>
  std::vector<MX> f_res = f_(f_arg);
  MX xp_j = C[0][j] * x0;
  for (casadi_int r=1; r<deg_+1; ++r) {
    xp_j += C[r][j] * x[r];
  }
  eq.push_back(vec(h * f_res[DAE_ODE] - xp_j));
  eq.push_back(vec(f_res[DAE_ALG]));
  xf += D[j]*x[j];
  qf += (B[j] * h)*f_res[DAE_QUAD];
  \<close>
\<close>

definition fstep_node ::
  "nat \<Rightarrow> Coefficients \<Rightarrow> dae \<Rightarrow> real list \<Rightarrow> real \<Rightarrow> vec \<Rightarrow> vec \<Rightarrow> vec \<Rightarrow>
   vec list \<Rightarrow> vec list \<Rightarrow> nat \<Rightarrow> vec list \<times> vec \<times> vec \<Rightarrow> vec list \<times> vec \<times> vec" where
  "fstep_node deg cf f tt h x0 p u x z j s =
     (case s of (eq, xf, qf) \<Rightarrow>
        let f_res = f (tt ! j) (x ! j) (z ! j) p u;
            xp_j = fold (\<lambda>r xp_j. vadd xp_j (scal (coef_C cf ! r ! j) (x ! r)))
                     [1..<deg + 1] (scal (coef_C cf ! 0 ! j) x0);
            eq = eq @ [vsub (scal h (DAE_ODE f_res)) xp_j];
            eq = eq @ [DAE_ALG f_res];
            xf = vadd xf (scal (coef_D cf ! j) (x ! j));
            qf = vadd qf (scal (coef_B cf ! j * h) (DAE_QUAD f_res))
        in (eq, xf, qf))"

text \<open>
  The function F_ (\<^verbatim>\<open>fstep\<close>) that setupFG builds, as the map from its inputs
  t0, h, x0, p, u, v to its outputs xf, vf (the stacked equations), qf.
\<close>

definition fstep ::
  "nat \<Rightarrow> nat \<Rightarrow> nat \<Rightarrow> nat \<Rightarrow> real list \<Rightarrow> Coefficients \<Rightarrow> dae \<Rightarrow> fstep_in \<Rightarrow> fstep_out" where
  "fstep deg nx nz nq tau_root cf f inp =
     (let t0 = FSTEP_T0 inp; h = FSTEP_H inp; x0 = FSTEP_X0 inp;
          p = FSTEP_P inp; u = FSTEP_U inp; v = FSTEP_V0 inp;
          vv = vertsplit v (v_offset deg nx nz);
          (x, z, vv_it) = collocated_states deg vv;
          tt = map (\<lambda>d. t0 + h * tau_root ! d) [0..<deg + 1];
          (eq, xf, qf) = fold (fstep_node deg cf f tt h x0 p u x z) [1..<deg + 1]
                           ([], scal (coef_D cf ! 0) x0, zeros nq)
      in \<lparr>FSTEP_XF = xf, FSTEP_VF = concat eq, FSTEP_QF = qf\<rparr>)"

text \<open>
  What the specification says about the forward step, for comparison with the code:
  the DAE callable at node j, evaluated at (t0 + h tau_root[j], x_j, z_j, p, u), and
  the residual block of node j, h ode_j - (C[0][j] x0 + sum over r = 1..d of
  C[r][j] x_r), stacked with alg_j.
\<close>

definition dae_at_node :: "nat \<Rightarrow> nat \<Rightarrow> real list \<Rightarrow> dae \<Rightarrow> fstep_in \<Rightarrow> nat \<Rightarrow> dae_res" where
  "dae_at_node nx nz tau_root f inp j =
     f (FSTEP_T0 inp + FSTEP_H inp * tau_root ! j)
       (node_x nx nz (FSTEP_V0 inp) j) (node_z nx nz (FSTEP_V0 inp) j)
       (FSTEP_P inp) (FSTEP_U inp)"

definition forward_residual_block ::
  "nat \<Rightarrow> nat \<Rightarrow> nat \<Rightarrow> real list \<Rightarrow> Coefficients \<Rightarrow> dae \<Rightarrow> fstep_in \<Rightarrow> nat \<Rightarrow> vec" where
  "forward_residual_block d nx nz tau_root cf f inp j =
     map (\<lambda>i. FSTEP_H inp * DAE_ODE (dae_at_node nx nz tau_root f inp j) ! i -
               (coef_C cf ! 0 ! j * FSTEP_X0 inp ! i +
                (\<Sum>r = 1..d. coef_C cf ! r ! j * node_x nx nz (FSTEP_V0 inp) r ! i)))
       [0..<nx]
     @ DAE_ALG (dae_at_node nx nz tau_root f inp j)"

section \<open>Backward step\<close>

record rdae_res =
  RDAE_RODE :: vec
  RDAE_RALG :: vec
  RDAE_RQUAD :: vec
  RDAE_UQUAD :: vec

text \<open>The backward DAE callable g, with inputs t, x, z, p, u, rx, rz, rp.\<close>

type_synonym rdae =
  "real \<Rightarrow> vec \<Rightarrow> vec \<Rightarrow> vec \<Rightarrow> vec \<Rightarrow> vec \<Rightarrow> vec \<Rightarrow> vec \<Rightarrow> rdae_res"

record bstep_in =
  BSTEP_T0 :: real
  BSTEP_H :: real
  BSTEP_X :: vec
  BSTEP_P :: vec
  BSTEP_U :: vec
  BSTEP_V :: vec
  BSTEP_RX0 :: vec
  BSTEP_RP :: vec
  BSTEP_RV0 :: vec

record bstep_out =
  BSTEP_RXF :: vec
  BSTEP_RVF :: vec
  BSTEP_RQF :: vec
  BSTEP_UQF :: vec

text \<open>
  One round of the backward loop over the collocation points j = 1, ..., deg; the state
  is (eq, rxf, rqf, uqf):
  \<^verbatim>\<open>
  std::vector<MX> g_res = g_(g_arg);
  MX rxp_j = -D[j]*rx0;
  for (casadi_int r=1; r<deg_+1; ++r) {
    rxp_j += (B[r]*C[j][r]) * rx[r];
  }
  eq.push_back(vec(h * B[j] * g_res[RDAE_RODE] - rxp_j));
  eq.push_back(vec(g_res[RDAE_RALG]));
  rxf += -B[j] * C[0][j] * rx[j];
  rqf += h * B[j] * g_res[RDAE_RQUAD];
  uqf += h * B[j] * g_res[RDAE_UQUAD];
  \<close>
\<close>

definition bstep_node ::
  "nat \<Rightarrow> Coefficients \<Rightarrow> rdae \<Rightarrow> real list \<Rightarrow> real \<Rightarrow> vec \<Rightarrow> vec \<Rightarrow> vec \<Rightarrow> vec \<Rightarrow>
   vec list \<Rightarrow> vec list \<Rightarrow> vec list \<Rightarrow> vec list \<Rightarrow> nat \<Rightarrow>
   vec list \<times> vec \<times> vec \<times> vec \<Rightarrow> vec list \<times> vec \<times> vec \<times> vec" where
  "bstep_node deg cf g tt h rx0 p u rp x z rx rz j s =
     (case s of (eq, rxf, rqf, uqf) \<Rightarrow>
        let g_res = g (tt ! j) (x ! j) (z ! j) p u (rx ! j) (rz ! j) rp;
            rxp_j = fold (\<lambda>r rxp_j.
                        vadd rxp_j (scal (coef_B cf ! r * coef_C cf ! j ! r) (rx ! r)))
                      [1..<deg + 1] (scal (- coef_D cf ! j) rx0);
            eq = eq @ [vsub (scal (h * coef_B cf ! j) (RDAE_RODE g_res)) rxp_j];
            eq = eq @ [RDAE_RALG g_res];
            rxf = vadd rxf (scal (- coef_B cf ! j * coef_C cf ! 0 ! j) (rx ! j));
            rqf = vadd rqf (scal (h * coef_B cf ! j) (RDAE_RQUAD g_res));
            uqf = vadd uqf (scal (h * coef_B cf ! j) (RDAE_UQUAD g_res))
        in (eq, rxf, rqf, uqf))"

text \<open>
  The function G_ (\<^verbatim>\<open>bstep\<close>), as the map from its inputs t0, h, x0, p, u, v, rx0,
  rp, rv to its outputs rxf, rvf (the stacked equations), rqf, uqf. The offsets of rv
  and the collocated rx, rz are built by the same loops as for v, with the sizes nrx
  and nrz.
\<close>

definition bstep ::
  "nat \<Rightarrow> nat \<Rightarrow> nat \<Rightarrow> nat \<Rightarrow> nat \<Rightarrow> nat \<Rightarrow> nat \<Rightarrow> real list \<Rightarrow> Coefficients \<Rightarrow> rdae \<Rightarrow>
   bstep_in \<Rightarrow> bstep_out" where
  "bstep deg nx nz nrx nrz nrq nuq tau_root cf g inp =
     (let t0 = BSTEP_T0 inp; h = BSTEP_H inp; x0 = BSTEP_X inp;
          p = BSTEP_P inp; u = BSTEP_U inp; v = BSTEP_V inp;
          rx0 = BSTEP_RX0 inp; rp = BSTEP_RP inp; rv = BSTEP_RV0 inp;
          vv = vertsplit v (v_offset deg nx nz);
          (x, z, vv_it) = collocated_states deg vv;
          tt = map (\<lambda>d. t0 + h * tau_root ! d) [0..<deg + 1];
          rvv = vertsplit rv (v_offset deg nrx nrz);
          (rx, rz, rvv_it) = collocated_states deg rvv;
          (eq, rxf, rqf, uqf) =
             fold (bstep_node deg cf g tt h rx0 p u rp x z rx rz) [1..<deg + 1]
               ([], scal (coef_D cf ! 0) rx0, zeros nrq, zeros nuq)
      in \<lparr>BSTEP_RXF = rxf, BSTEP_RVF = concat eq, BSTEP_RQF = rqf, BSTEP_UQF = uqf\<rparr>)"

text \<open>
  What the specification says about the backward step, for comparison with the code:
  the backward DAE callable at node j, evaluated at
  (t0 + h tau_root[j], x_j, z_j, p, u, rx_j, rz_j, rp), and the residual block of node j,
  h B[j] rode_j - rxp_j with rxp_j = -D[j] rx0 + sum over r = 1..d of
  (B[r] C[j][r]) rx_r, stacked with ralg_j.
\<close>

definition rdae_at_node ::
  "nat \<Rightarrow> nat \<Rightarrow> nat \<Rightarrow> nat \<Rightarrow> real list \<Rightarrow> rdae \<Rightarrow> bstep_in \<Rightarrow> nat \<Rightarrow> rdae_res" where
  "rdae_at_node nx nz nrx nrz tau_root g inp j =
     g (BSTEP_T0 inp + BSTEP_H inp * tau_root ! j)
       (node_x nx nz (BSTEP_V inp) j) (node_z nx nz (BSTEP_V inp) j)
       (BSTEP_P inp) (BSTEP_U inp)
       (node_x nrx nrz (BSTEP_RV0 inp) j) (node_z nrx nrz (BSTEP_RV0 inp) j)
       (BSTEP_RP inp)"

definition backward_rxp ::
  "nat \<Rightarrow> nat \<Rightarrow> nat \<Rightarrow> Coefficients \<Rightarrow> bstep_in \<Rightarrow> nat \<Rightarrow> nat \<Rightarrow> real" where
  "backward_rxp d nrx nrz cf inp j i =
     - coef_D cf ! j * BSTEP_RX0 inp ! i +
     (\<Sum>r = 1..d. (coef_B cf ! r * coef_C cf ! j ! r) * node_x nrx nrz (BSTEP_RV0 inp) r ! i)"

definition backward_residual_block ::
  "nat \<Rightarrow> nat \<Rightarrow> nat \<Rightarrow> nat \<Rightarrow> nat \<Rightarrow> real list \<Rightarrow> Coefficients \<Rightarrow> rdae \<Rightarrow> bstep_in \<Rightarrow>
   nat \<Rightarrow> vec" where
  "backward_residual_block d nx nz nrx nrz tau_root cf g inp j =
     map (\<lambda>i. BSTEP_H inp * coef_B cf ! j *
                 RDAE_RODE (rdae_at_node nx nz nrx nrz tau_root g inp j) ! i -
               backward_rxp d nrx nrz cf inp j i)
       [0..<nrx]
     @ RDAE_RALG (rdae_at_node nx nz nrx nrz tau_root g inp j)"

section \<open>Configuration and construction of the step functions\<close>

datatype error = InvalidDegree | InvalidScheme | SerializationVersionMismatch | UnexpectedItem

text \<open>
  Modelled from the spec: \<^verbatim>\<open>collocation_points(order, scheme)\<close> belongs to the core
  library and is not part of the source file, which calls it first thing in setupFG.
  Section 4.1 of the specification: the input is a degree d \<ge> 1 and a scheme in
  {radau, legendre}; it fails with InvalidDegree if d < 1, with InvalidScheme otherwise.
  The node values (the d roots of the quadrature rule) are a parameter, \<open>points\<close>.
\<close>

definition collocation_points ::
  "(nat \<Rightarrow> string \<Rightarrow> real list) \<Rightarrow> int \<Rightarrow> string \<Rightarrow> error + real list" where
  "collocation_points points order scheme =
     (if order < 1 then Inl InvalidDegree
      else if scheme \<noteq> ''radau'' \<and> scheme \<noteq> ''legendre'' then Inl InvalidScheme
      else Inr (points (nat order) scheme))"

record dims =
  dim_nx :: nat
  dim_nz :: nat
  dim_nq :: nat
  dim_nrx :: nat
  dim_nrz :: nat
  dim_nrq :: nat
  dim_nuq :: nat

record steps =
  step_F :: "fstep_in \<Rightarrow> fstep_out"
  step_G :: "(bstep_in \<Rightarrow> bstep_out) option"

text \<open>
  setupFG: the collocation points with 0 in front, the coefficients, the forward step
  and, when the backward DAE callable g is not null (\<open>None\<close> is the null function),
  the backward step.
\<close>

definition setupFG ::
  "(nat \<Rightarrow> string \<Rightarrow> real list) \<Rightarrow> dims \<Rightarrow> int \<Rightarrow> string \<Rightarrow> dae \<Rightarrow> rdae option \<Rightarrow>
   error + steps" where
  "setupFG points dm deg_int scheme f g =
     (case collocation_points points deg_int scheme of
        Inl e \<Rightarrow> Inl e
      | Inr tau \<Rightarrow>
          let tau_root = 0 # tau;
              deg = nat deg_int;
              cf = collocation_coefficients tau_root scheme deg
          in Inr \<lparr>step_F = fstep deg (dim_nx dm) (dim_nz dm) (dim_nq dm) tau_root cf f,
                  step_G = (case g of
                      None \<Rightarrow> None
                    | Some g' \<Rightarrow> Some (bstep deg (dim_nx dm) (dim_nz dm) (dim_nrx dm) (dim_nrz dm)
                                   (dim_nrq dm) (dim_nuq dm) tau_root cf g'))\<rparr>)"

text \<open>
  \<^verbatim>\<open>
  deg_ = 3;
  collocation_scheme_ = "radau";
  for (auto&& op : opts) {
    if (op.first=="interpolation_order") {
      deg_ = op.second;
    } else if (op.first=="collocation_scheme") {
      collocation_scheme_ = op.second.to_string();
    }
  }
  \<close>
  The options are a list of (name, value) pairs; the conversions of an option value to
  an integer and to a string belong to the option type and are parameters.
\<close>

record config =
  interpolation_order :: int
  collocation_scheme :: string

definition read_option ::
  "('g \<Rightarrow> int) \<Rightarrow> ('g \<Rightarrow> string) \<Rightarrow> string \<times> 'g \<Rightarrow> config \<Rightarrow> config" where
  "read_option to_int to_string op c =
     (if fst op = ''interpolation_order'' then c\<lparr>interpolation_order := to_int (snd op)\<rparr>
      else if fst op = ''collocation_scheme'' then c\<lparr>collocation_scheme := to_string (snd op)\<rparr>
      else c)"

definition read_options ::
  "('g \<Rightarrow> int) \<Rightarrow> ('g \<Rightarrow> string) \<Rightarrow> (string \<times> 'g) list \<Rightarrow> config" where
  "read_options to_int to_string opts =
     fold (read_option to_int to_string) opts
       \<lparr>interpolation_order = 3, collocation_scheme = ''radau''\<rparr>"

text \<open>
  Modelled from the spec: init ends with the init of the base class, which is not part
  of the source file. By sections 6 and 7 of the specification an invalid degree or
  scheme is rejected at configuration time, never at the first step evaluation: the
  base init is taken to run setupFG on the configuration just read.
\<close>

definition init ::
  "('g \<Rightarrow> int) \<Rightarrow> ('g \<Rightarrow> string) \<Rightarrow> (nat \<Rightarrow> string \<Rightarrow> real list) \<Rightarrow> dims \<Rightarrow> dae \<Rightarrow>
   rdae option \<Rightarrow> (string \<times> 'g) list \<Rightarrow> error + steps" where
  "init to_int to_string points dm f g opts =
     (let c = read_options to_int to_string opts
      in setupFG points dm (interpolation_order c) (collocation_scheme c) f g)"

section \<open>Persistence\<close>

text \<open>
  Modelled from the spec: the serializing and deserializing streams are not part of the
  source file. By sections 4.4 and 6 of the specification the object is saved as a
  single versioned record of tagged fields. A stream is the list of the items written,
  each with the descriptor the source passes; a function is an opaque value and may be
  null (\<open>None\<close>).
\<close>

datatype 'fn item =
  Version string int
| Pack_int string int
| Pack_string string string
| Pack_bool string bool
| Pack_Function string "'fn option"

text \<open>
  Modelled from the spec: writing the version tag and the fields of the record
  (\<^verbatim>\<open>s.version(name, v)\<close>, \<^verbatim>\<open>s.pack(name, x)\<close>) appends an item to the stream.
\<close>

definition version_out :: "string \<Rightarrow> int \<Rightarrow> 'fn item list \<Rightarrow> 'fn item list" where
  "version_out name v s = s @ [Version name v]"

definition pack_int :: "string \<Rightarrow> int \<Rightarrow> 'fn item list \<Rightarrow> 'fn item list" where
  "pack_int name x s = s @ [Pack_int name x]"

definition pack_string :: "string \<Rightarrow> string \<Rightarrow> 'fn item list \<Rightarrow> 'fn item list" where
  "pack_string name x s = s @ [Pack_string name x]"

definition pack_Function :: "string \<Rightarrow> 'fn option \<Rightarrow> 'fn item list \<Rightarrow> 'fn item list" where
  "pack_Function name x s = s @ [Pack_Function name x]"

definition pack_bool :: "string \<Rightarrow> bool \<Rightarrow> 'fn item list \<Rightarrow> 'fn item list" where
  "pack_bool name x s = s @ [Pack_bool name x]"

text \<open>
  Modelled from the spec: reading the version tag. By sections 4.4 and 7 loading fails
  with SerializationVersionMismatch on an unsupported version tag; an item of another
  kind or descriptor than the one asked for gives UnexpectedItem.
\<close>

definition version_in :: "string \<Rightarrow> int \<Rightarrow> 'fn item list \<Rightarrow> error + 'fn item list" where
  "version_in name v s =
     (case s of
        Version n w # rest \<Rightarrow>
          if n \<noteq> name then Inl UnexpectedItem
          else if w = v then Inr rest
          else Inl SerializationVersionMismatch
      | _ \<Rightarrow> Inl UnexpectedItem)"

text \<open>
  Modelled from the spec: reading a field of the record (\<^verbatim>\<open>s.unpack(name, x)\<close>) takes
  the next item of the stream, which must be of the kind and descriptor asked for.
\<close>

definition unpack_int :: "string \<Rightarrow> 'fn item list \<Rightarrow> error + int \<times> 'fn item list" where
  "unpack_int name s =
     (case s of
        Pack_int n x # rest \<Rightarrow> if n = name then Inr (x, rest) else Inl UnexpectedItem
      | _ \<Rightarrow> Inl UnexpectedItem)"

definition unpack_string :: "string \<Rightarrow> 'fn item list \<Rightarrow> error + string \<times> 'fn item list" where
  "unpack_string name s =
     (case s of
        Pack_string n x # rest \<Rightarrow> if n = name then Inr (x, rest) else Inl UnexpectedItem
      | _ \<Rightarrow> Inl UnexpectedItem)"

definition unpack_Function ::
  "string \<Rightarrow> 'fn item list \<Rightarrow> error + 'fn option \<times> 'fn item list" where
  "unpack_Function name s =
     (case s of
        Pack_Function n x # rest \<Rightarrow> if n = name then Inr (x, rest) else Inl UnexpectedItem
      | _ \<Rightarrow> Inl UnexpectedItem)"

definition unpack_bool :: "string \<Rightarrow> 'fn item list \<Rightarrow> error + bool \<times> 'fn item list" where
  "unpack_bool name s =
     (case s of
        Pack_bool n x # rest \<Rightarrow> if n = name then Inr (x, rest) else Inl UnexpectedItem
      | _ \<Rightarrow> Inl UnexpectedItem)"

text \<open>
  The members of the object that matter for persistence: the degree, the scheme name,
  the DAE callables f_ and g_ that setupFG creates (\<^verbatim>\<open>create_function("f", ...)\<close>,
  \<^verbatim>\<open>create_function("g", ...)\<close>), and the step functions F_ (\<^verbatim>\<open>fstep\<close>) and G_
  (\<^verbatim>\<open>bstep\<close>) that setupFG stores in the base class.
\<close>

record 'fn Collocation =
  obj_deg :: int
  obj_collocation_scheme :: string
  obj_f :: "'fn option"
  obj_g :: "'fn option"
  obj_F :: "'fn option"
  obj_G :: "'fn option"

text \<open>
  \<^verbatim>\<open>
  void Collocation::serialize_body(SerializingStream &s) const {
    ImplicitFixedStepIntegrator::serialize_body(s);
    s.version("Collocation", 1);
    s.pack("Collocation::deg", deg_);
    s.pack("Collocation::collocation_scheme", collocation_scheme_);
    s.pack("Collocation::f", f_);
    s.pack("Collocation::g", g_);
  }
  \<close>
  The serialization of the base class is the parameter \<open>base_out\<close>.
\<close>

definition serialize_body ::
  "('fn Collocation \<Rightarrow> 'fn item list \<Rightarrow> 'fn item list) \<Rightarrow> 'fn Collocation \<Rightarrow>
   'fn item list \<Rightarrow> 'fn item list" where
  "serialize_body base_out c s =
     (let s = base_out c s;
          s = version_out ''Collocation'' 1 s;
          s = pack_int ''Collocation::deg'' (obj_deg c) s;
          s = pack_string ''Collocation::collocation_scheme'' (obj_collocation_scheme c) s;
          s = pack_Function ''Collocation::f'' (obj_f c) s;
          s = pack_Function ''Collocation::g'' (obj_g c) s
      in s)"

text \<open>
  \<^verbatim>\<open>
  Collocation::Collocation(DeserializingStream& s) : ImplicitFixedStepIntegrator(s) {
    s.version("Collocation", 1);
    s.unpack("Collocation::deg", deg_);
    s.unpack("Collocation::collocation_scheme", collocation_scheme_);
    s.unpack("Collocation::f", f_);
    s.unpack("Collocation::g", g_);
  }
  \<close>
  The constructor of the base class is the parameter \<open>base_in\<close>: it reads its part of the
  stream and gives the object with the members of the base class set.
\<close>

definition deserialize ::
  "('fn item list \<Rightarrow> error + 'fn Collocation \<times> 'fn item list) \<Rightarrow> 'fn item list \<Rightarrow>
   error + 'fn Collocation \<times> 'fn item list" where
  "deserialize base_in s =
     (case base_in s of
        Inl e \<Rightarrow> Inl e
      | Inr (c, s) \<Rightarrow>
     (case version_in ''Collocation'' 1 s of
        Inl e \<Rightarrow> Inl e
      | Inr s \<Rightarrow>
     (case unpack_int ''Collocation::deg'' s of
        Inl e \<Rightarrow> Inl e
      | Inr (d, s) \<Rightarrow>
     (case unpack_string ''Collocation::collocation_scheme'' s of
        Inl e \<Rightarrow> Inl e
      | Inr (sch, s) \<Rightarrow>
     (case unpack_Function ''Collocation::f'' s of
        Inl e \<Rightarrow> Inl e
      | Inr (f, s) \<Rightarrow>
     (case unpack_Function ''Collocation::g'' s of
        Inl e \<Rightarrow> Inl e
      | Inr (g, s) \<Rightarrow>
          Inr (c\<lparr>obj_deg := d, obj_collocation_scheme := sch, obj_f := f, obj_g := g\<rparr>,
               s)))))))"

text \<open>
  Modelled from the spec: the serialization of the base class
  (\<^verbatim>\<open>ImplicitFixedStepIntegrator::serialize_body\<close>), which serialize_body runs first,
  is not part of the source file. By sections 4.4 and 6 of the specification the
  persisted record holds the forward step relation, the has-backward flag and the
  backward step relation if present; the base class, which owns F_ and G_, is taken to
  write them. The specification gives no descriptors for these items, and the theorems
  do not depend on the ones used here.
\<close>

definition base_serialize_body :: "'fn Collocation \<Rightarrow> 'fn item list \<Rightarrow> 'fn item list" where
  "base_serialize_body c s =
     (let s = pack_Function ''FixedStepIntegrator::F'' (obj_F c) s;
          s = pack_bool ''FixedStepIntegrator::has_G'' (obj_G c \<noteq> None) s;
          s = (if obj_G c \<noteq> None then pack_Function ''FixedStepIntegrator::G'' (obj_G c) s
               else s)
      in s)"

text \<open>
  Modelled from the spec: the restoring constructor of the base class
  (\<^verbatim>\<open>ImplicitFixedStepIntegrator(s)\<close>) is not part of the source file. It reads back
  what the serialization of the base class wrote, the forward step relation, the
  has-backward flag and the backward step relation if present; the members that the
  constructor of Collocation sets afterwards are empty in the object it gives.
\<close>

definition base_deserialize ::
  "'fn item list \<Rightarrow> error + 'fn Collocation \<times> 'fn item list" where
  "base_deserialize s =
     (case unpack_Function ''FixedStepIntegrator::F'' s of
        Inl e \<Rightarrow> Inl e
      | Inr (F, s) \<Rightarrow>
     (case unpack_bool ''FixedStepIntegrator::has_G'' s of
        Inl e \<Rightarrow> Inl e
      | Inr (has_G, s) \<Rightarrow>
          if has_G then
            (case unpack_Function ''FixedStepIntegrator::G'' s of
               Inl e \<Rightarrow> Inl e
             | Inr (G, s) \<Rightarrow>
                 Inr (\<lparr>obj_deg = 0, obj_collocation_scheme = [], obj_f = None, obj_g = None,
                       obj_F = F, obj_G = G\<rparr>, s))
          else
            Inr (\<lparr>obj_deg = 0, obj_collocation_scheme = [], obj_f = None, obj_g = None,
                  obj_F = F, obj_G = None\<rparr>, s)))"

text \<open>
  What a record holds, kind by kind and in the order written, whatever the descriptors:
  its version tags, integers, strings, flags and (non-null) functions.
\<close>

fun versions_in :: "'fn item list \<Rightarrow> int list" where
  "versions_in [] = []"
| "versions_in (Version n v # s) = v # versions_in s"
| "versions_in (i # s) = versions_in s"

fun ints_in :: "'fn item list \<Rightarrow> int list" where
  "ints_in [] = []"
| "ints_in (Pack_int n x # s) = x # ints_in s"
| "ints_in (i # s) = ints_in s"

fun strings_in :: "'fn item list \<Rightarrow> string list" where
  "strings_in [] = []"
| "strings_in (Pack_string n x # s) = x # strings_in s"
| "strings_in (i # s) = strings_in s"

fun bools_in :: "'fn item list \<Rightarrow> bool list" where
  "bools_in [] = []"
| "bools_in (Pack_bool n x # s) = x # bools_in s"
| "bools_in (i # s) = bools_in s"

fun functions_in :: "'fn item list \<Rightarrow> 'fn list" where
  "functions_in [] = []"
| "functions_in (Pack_Function n (Some f) # s) = f # functions_in s"
| "functions_in (i # s) = functions_in s"

definition opt_list :: "'a option \<Rightarrow> 'a list" where
  "opt_list x = (case x of None \<Rightarrow> [] | Some a \<Rightarrow> [a])"

text \<open>
  The record as the specification lists it, for comparison with the code: it consists
  of a version tag, the degree, the scheme name, the forward step relation, the
  has-backward flag, and the backward step relation if present, and of nothing else.
\<close>

definition record_as_claimed :: "'fn Collocation \<Rightarrow> 'fn item list \<Rightarrow> bool" where
  "record_as_claimed c r =
     (length (versions_in r) = 1 \<and>
      ints_in r = [obj_deg c] \<and>
      strings_in r = [obj_collocation_scheme c] \<and>
      bools_in r = [obj_G c \<noteq> None] \<and>
      functions_in r = opt_list (obj_F c) @ opt_list (obj_G c))"

section \<open>Properties of the initial guess\<close>

lemma casadi_copy_length: "length (casadi_copy x n buf off) = length buf"
proof -
  have "length (fold (\<lambda>i b. b[off + i := x ! i]) is buf) = length buf" for "is"
    by (induction "is" arbitrary: buf) simp_all
  then show ?thesis by (simp add: casadi_copy_def)
qed

lemma casadi_copy_nth:
  assumes "i < length buf"
  shows "casadi_copy x n buf off ! i =
         (if off \<le> i \<and> i < off + n then x ! (i - off) else buf ! i)"
  unfolding casadi_copy_def
proof (induction n)
  case 0
  then show ?case by simp
next
  case (Suc k)
  have len: "length (fold (\<lambda>i b. b[off + i := x ! i]) [0..<k] buf) = length buf"
    using casadi_copy_length [of x k buf off] by (simp add: casadi_copy_def)
  show ?case
  proof (cases "i = off + k")
    case True
    then show ?thesis using len assms by simp
  next
    case False
    then show ?thesis using Suc len assms by (auto simp: nth_list_update)
  qed
qed

lemma casadi_copy_append:
  assumes "length x = n" and "n \<le> length rest"
  shows "casadi_copy x n (pre @ rest) (length pre) = pre @ x @ drop n rest"
proof (rule nth_equalityI)
  show "length (casadi_copy x n (pre @ rest) (length pre)) = length (pre @ x @ drop n rest)"
    using assms by (simp add: casadi_copy_length)
next
  fix i
  assume "i < length (casadi_copy x n (pre @ rest) (length pre))"
  then have i: "i < length (pre @ rest)"
    by (simp add: casadi_copy_length)
  show "casadi_copy x n (pre @ rest) (length pre) ! i = (pre @ x @ drop n rest) ! i"
    using assms i by (auto simp: casadi_copy_nth nth_append)
qed

lemma guess_step_append:
  assumes "length x = nx" and "length z = nz" and "nx + nz \<le> length rest"
  shows "guess_step x nx z nz (pre @ rest, length pre) =
         (pre @ x @ z @ drop (nx + nz) rest, length pre + nx + nz)"
proof -
  have a: "casadi_copy x nx (pre @ rest) (length pre) = pre @ x @ drop nx rest"
    by (rule casadi_copy_append) (use assms in simp_all)
  have b: "casadi_copy z nz ((pre @ x) @ drop nx rest) (length (pre @ x)) =
           (pre @ x) @ z @ drop nz (drop nx rest)"
    by (rule casadi_copy_append) (use assms in simp_all)
  show ?thesis
    using a b assms by (simp add: guess_step_def Let_def add.commute)
qed

lemma concat_replicate_Suc_end:
  "concat (replicate (Suc m) xs) = concat (replicate m xs) @ xs"
proof -
  have "replicate (Suc m) xs = replicate m xs @ [xs]"
    by (simp add: replicate_append_same)
  then show ?thesis
    by (simp del: replicate_Suc)
qed

lemma guess_fold_append:
  assumes "length x = nx" and "length z = nz" and "length r = m * (nx + nz)"
  shows "fold (\<lambda>d s. guess_step x nx z nz s) [0..<m] (pre @ r @ t, length pre) =
         (pre @ concat (replicate m (x @ z)) @ t, length pre + m * (nx + nz))"
  using assms(3)
proof (induction m arbitrary: r t)
  case 0
  then show ?case by simp
next
  case (Suc m)
  define r1 where "r1 = take (m * (nx + nz)) r"
  define r2 where "r2 = drop (m * (nx + nz)) r"
  have r: "r = r1 @ r2" and lr1: "length r1 = m * (nx + nz)"
    and lr2: "length r2 = nx + nz"
    using Suc.prems by (simp_all add: r1_def r2_def)
  have ih: "fold (\<lambda>d s. guess_step x nx z nz s) [0..<m] (pre @ r1 @ (r2 @ t), length pre) =
      (pre @ concat (replicate m (x @ z)) @ (r2 @ t), length pre + m * (nx + nz))"
    by (rule Suc.IH) (rule lr1)
  have lenp: "length (pre @ concat (replicate m (x @ z))) = length pre + m * (nx + nz)"
    using assms(1,2) by (simp add: length_concat sum_list_replicate)
  have st: "guess_step x nx z nz
        ((pre @ concat (replicate m (x @ z))) @ (r2 @ t),
         length (pre @ concat (replicate m (x @ z)))) =
      ((pre @ concat (replicate m (x @ z))) @ x @ z @ drop (nx + nz) (r2 @ t),
       length (pre @ concat (replicate m (x @ z))) + nx + nz)"
    by (rule guess_step_append) (use assms(1,2) lr2 in simp_all)
  have "fold (\<lambda>d s. guess_step x nx z nz s) [0..<Suc m] (pre @ r @ t, length pre) =
        guess_step x nx z nz
          ((pre @ concat (replicate m (x @ z))) @ (r2 @ t), length pre + m * (nx + nz))"
    using ih by (simp add: r)
  also have "\<dots> = ((pre @ concat (replicate m (x @ z))) @ x @ z @ drop (nx + nz) (r2 @ t),
       length pre + m * (nx + nz) + nx + nz)"
    using st unfolding lenp .
  also have "\<dots> = (pre @ concat (replicate (Suc m) (x @ z)) @ t,
       length pre + Suc m * (nx + nz))"
    using lr2 by (simp add: concat_replicate_Suc_end del: replicate_Suc)
  finally show ?case .
qed

lemma guess_loop_fills:
  assumes "length x = nx" and "length z = nz" and "length buf = deg * (nx + nz)"
  shows "guess_loop deg x nx z nz buf = concat (replicate deg (x @ z))"
  using guess_fold_append [OF assms, of "[]" "[]"] by (simp add: guess_loop_def)

lemma block_of_replicate:
  assumes "k < n"
  shows "take (length b) (drop (k * length b) (concat (replicate n b))) = b"
  using assms
proof (induction k arbitrary: n)
  case 0
  then obtain m where "n = Suc m" by (cases n) auto
  then show ?case by simp
next
  case (Suc k)
  then obtain m where n: "n = Suc m" and "k < m" by (cases n) auto
  then show ?case using Suc.IH [of m] by (simp add: add.commute)
qed

text \<open>
  Claim C9. After reset(x0, z0), with x0 of length nx and z0 of length nz, the buffer v
  has length d * (nx + nz) and each of its d blocks of nx + nz entries is concat(x0, z0);
  resetB(rx0, rz0) fills rv in the same way with concat(rx0, rz0). The symbolic initial
  guess algebraic_state_init gives the same vector.
\<close>

theorem reset_replicates_initial_guess:
  assumes "length x0 = nx" and "length z0 = nz"
    and "length (m_v (base_reset mem)) = deg * (nx + nz)"
    and "length rx0 = nrx" and "length rz0 = nrz"
    and "length (m_rv (base_resetB memB)) = deg * (nrx + nrz)"
  shows "length (m_v (reset base_reset deg nx nz mem x0 z0)) = deg * (nx + nz) \<and>
         (\<forall>k<deg. take (nx + nz) (drop (k * (nx + nz))
              (m_v (reset base_reset deg nx nz mem x0 z0))) = vertcat x0 z0) \<and>
         length (m_rv (resetB base_resetB deg nrx nrz memB rx0 rz0)) = deg * (nrx + nrz) \<and>
         (\<forall>k<deg. take (nrx + nrz) (drop (k * (nrx + nrz))
              (m_rv (resetB base_resetB deg nrx nrz memB rx0 rz0))) = vertcat rx0 rz0) \<and>
         algebraic_state_init deg x0 z0 = m_v (reset base_reset deg nx nz mem x0 z0)"
proof -
  have v: "m_v (reset base_reset deg nx nz mem x0 z0) = concat (replicate deg (x0 @ z0))"
    using guess_loop_fills [OF assms(1,2,3)] by (simp add: reset_def Let_def)
  have rv: "m_rv (resetB base_resetB deg nrx nrz memB rx0 rz0) =
            concat (replicate deg (rx0 @ rz0))"
    using guess_loop_fills [OF assms(4,5,6)] by (simp add: resetB_def Let_def)
  have lx: "length (x0 @ z0) = nx + nz" and lrx: "length (rx0 @ rz0) = nrx + nrz"
    using assms by simp_all
  have b1: "take (nx + nz) (drop (k * (nx + nz)) (concat (replicate deg (x0 @ z0)))) = x0 @ z0"
    if "k < deg" for k
    using block_of_replicate [OF that, of "x0 @ z0"] unfolding lx .
  have b2: "take (nrx + nrz) (drop (k * (nrx + nrz)) (concat (replicate deg (rx0 @ rz0)))) =
            rx0 @ rz0" if "k < deg" for k
    using block_of_replicate [OF that, of "rx0 @ rz0"] unfolding lrx .
  have l1: "length (concat (replicate deg (x0 @ z0))) = deg * (nx + nz)"
    using assms by (simp add: length_concat sum_list_replicate)
  have l2: "length (concat (replicate deg (rx0 @ rz0))) = deg * (nrx + nrz)"
    using assms by (simp add: length_concat sum_list_replicate)
  show ?thesis
    unfolding v rv using b1 b2 l1 l2
    by (simp add: vertcat_def algebraic_state_init_def repmat_def)
qed

theorem reset_replicates_initial_guess_witness:
  "length [1, 2 :: real] = 2 \<and> length [3 :: real] = 1 \<and>
   length (m_v ((\<lambda>m. m) \<lparr>m_v = [0, 0, 0, 0, 0, 0], m_rv = [9, 9]\<rparr>)) = 2 * (2 + 1) \<and>
   length [7 :: real] = 1 \<and> length ([] :: real list) = 0 \<and>
   length (m_rv ((\<lambda>m. m) \<lparr>m_v = [0, 0, 0, 0, 0, 0], m_rv = [9, 9]\<rparr>)) = 2 * (1 + 0) \<and>
   m_v (reset (\<lambda>m. m) 2 2 1 \<lparr>m_v = [0, 0, 0, 0, 0, 0], m_rv = [9, 9]\<rparr> [1, 2] [3]) =
     [1, 2, 3, 1, 2, 3] \<and>
   m_rv (resetB (\<lambda>m. m) 2 1 0 \<lparr>m_v = [0, 0, 0, 0, 0, 0], m_rv = [9, 9]\<rparr> [7] []) = [7, 7] \<and>
   take (2 + 1) (drop (1 * (2 + 1))
     (m_v (reset (\<lambda>m. m) 2 2 1 \<lparr>m_v = [0, 0, 0, 0, 0, 0], m_rv = [9, 9]\<rparr> [1, 2] [3]))) =
     vertcat [1, 2] [3]"
  using reset_replicates_initial_guess [of "[1, 2]" 2 "[3]" 1 "\<lambda>m. m"
      "\<lparr>m_v = [0, 0, 0, 0, 0, 0], m_rv = [9, 9]\<rparr>" 2 "[7]" 1 "[]" 0 "\<lambda>m. m"
      "\<lparr>m_v = [0, 0, 0, 0, 0, 0], m_rv = [9, 9]\<rparr>"]
  by (simp add: reset_def resetB_def guess_loop_def guess_step_def casadi_copy_def
      vertcat_def upt_rec numeral_2_eq_2)

text \<open>
  Claim C10. For a stacked vector Z with at least nz entries, algebraic_state_output
  returns exactly the last nz entries of Z; when Z is the stack of d \<ge> 1 node blocks,
  these are the algebraic variables of node d, and no entry of another node.
\<close>

theorem algebraic_state_output_last_node:
  assumes "nz \<le> length Z"
  shows "algebraic_state_output nz Z = drop (length Z - nz) Z \<and>
         length (algebraic_state_output nz Z) = nz \<and>
         (\<forall>d nx. 1 \<le> d \<and> length Z = d * (nx + nz) \<longrightarrow>
            algebraic_state_output nz Z = node_z nx nz Z d)"
proof -
  have a: "algebraic_state_output nz Z = drop (length Z - nz) Z"
    using assms by (simp add: algebraic_state_output_def Slice_def nat_diff_distrib')
  have b: "drop (length Z - nz) Z = node_z nx nz Z d"
    if d1: "1 \<le> d" and len: "length Z = d * (nx + nz)" for d nx
  proof -
    obtain m where d: "d = Suc m" using d1 by (cases d) auto
    have "length Z - nz = m * (nx + nz) + nx"
      using len by (simp add: d)
    then show ?thesis
      using len by (simp add: node_z_def d add.commute)
  qed
  show ?thesis
    using a b assms by auto
qed

theorem algebraic_state_output_last_node_witness:
  "(1::nat) \<le> length [1, 2, 3, 4, 5, 6 :: real] \<and>
   algebraic_state_output 1 [1, 2, 3, 4, 5, 6] = [6] \<and>
   algebraic_state_output 1 [1, 2, 3, 4, 5, 6] = node_z 2 1 [1, 2, 3, 4, 5, 6] 2"
  using algebraic_state_output_last_node [of 1 "[1, 2, 3, 4, 5, 6]"]
  by (simp add: node_z_def)

section \<open>Properties of the polynomial basis\<close>

lemma poly_eval_add: "poly_eval (poly_add p q) x = poly_eval p x + poly_eval q x"
  by (induction p q rule: poly_add.induct) (simp_all add: algebra_simps)

lemma poly_eval_scale: "poly_eval (map (\<lambda>b. a * b) q) x = a * poly_eval q x"
  by (induction q) (simp_all add: algebra_simps)

lemma poly_eval_mul: "poly_eval (poly_mul p q) x = poly_eval p x * poly_eval q x"
  by (induction p) (simp_all add: poly_eval_add poly_eval_scale algebra_simps)

lemma poly_eval_div_scalar: "poly_eval (poly_div_scalar p c) x = poly_eval p x / c"
  unfolding poly_div_scalar_def
  by (induction p) (simp_all add: add_divide_distrib)

lemma poly_eval_monom: "poly_eval p x = (\<Sum>k<length p. p ! k * x ^ k)"
proof (induction p)
  case Nil
  then show ?case by simp
next
  case (Cons a p)
  have "(\<Sum>k<Suc (length p). (a # p) ! k * x ^ k) =
        a + (\<Sum>k<length p. p ! k * x ^ Suc k)"
    by (simp add: sum.lessThan_Suc_shift del: sum.lessThan_Suc)
  also have "\<dots> = a + x * (\<Sum>k<length p. p ! k * x ^ k)"
    by (simp add: sum_distrib_left mult_ac)
  finally show ?case using Cons by simp
qed

lemma poly_add_length: "length (poly_add p q) = max (length p) (length q)"
  by (induction p q rule: poly_add.induct) simp_all

lemma poly_mul_length:
  "length (poly_mul p (b # q)) = (if p = [] then 0 else length p + length q)"
  by (induction p) (auto simp: poly_add_length)

lemma lagrange_fold_eval:
  "poly_eval (fold (\<lambda>r p. if r \<noteq> j then poly_mul p (q r) else p) rs p0) x =
   poly_eval p0 x * (\<Prod>r\<leftarrow>filter (\<lambda>r. r \<noteq> j) rs. poly_eval (q r) x)"
  by (induction rs arbitrary: p0) (simp_all add: poly_eval_mul mult.assoc)

lemma lagrange_fold_length:
  assumes "\<And>r. length (q r) = 2" and "p0 \<noteq> []"
  shows "length (fold (\<lambda>r p. if r \<noteq> j then poly_mul p (q r) else p) rs p0) =
         length p0 + length (filter (\<lambda>r. r \<noteq> j) rs)"
  using assms(2)
proof (induction rs arbitrary: p0)
  case Nil
  then show ?case by simp
next
  case (Cons r rs)
  obtain b q' where q: "q r = b # q'" and q': "length q' = 1"
    using assms(1) [of r] by (cases "q r") auto
  have l: "length (poly_mul p0 (q r)) = length p0 + 1"
    using poly_mul_length [of p0 b q'] Cons.prems q' by (simp add: q)
  then have ne: "poly_mul p0 (q r) \<noteq> []" by auto
  show ?case
    using Cons.IH [OF ne] Cons.IH [OF Cons.prems] l by simp
qed

lemma lagrange_poly_eval:
  "poly_eval (lagrange_poly tau_root d j) x = lagrange_basis tau_root d j x"
  unfolding lagrange_poly_def lagrange_basis_def lagrange_fold_eval
  by (simp add: poly_eval_div_scalar Polynomial_linear_def Polynomial_const_def
      del: upt_Suc)

lemma filter_neq_upt_length:
  "length (filter (\<lambda>r. r \<noteq> j) [0..<n]) = n - (if j < n then 1 else 0)"
  by (induction n) auto

lemma lagrange_poly_length:
  "j \<le> d \<Longrightarrow> length (lagrange_poly tau_root d j) = d + 1"
  unfolding lagrange_poly_def
  by (subst lagrange_fold_length)
     (simp_all add: poly_div_scalar_def Polynomial_linear_def Polynomial_const_def
        filter_neq_upt_length del: upt_Suc)

lemma lagrange_basis_at_node:
  assumes "length tau_root = d + 1" and "distinct tau_root" and "j \<le> d" and "m \<le> d"
  shows "lagrange_basis tau_root d j (tau_root ! m) = (if m = j then 1 else 0)"
proof (cases "m = j")
  case True
  have "(tau_root ! j - tau_root ! r) / (tau_root ! j - tau_root ! r) = 1"
    if "r \<in> set (filter (\<lambda>r. r \<noteq> j) [0..<d + 1])" for r
  proof -
    have "r < length tau_root" "j < length tau_root" "r \<noteq> j"
      using that assms by (auto simp del: upt_Suc)
    then have "tau_root ! j \<noteq> tau_root ! r"
      using assms(2) by (simp add: nth_eq_iff_index_eq)
    then show ?thesis by simp
  qed
  then have "map (\<lambda>r. (tau_root ! j - tau_root ! r) / (tau_root ! j - tau_root ! r))
               (filter (\<lambda>r. r \<noteq> j) [0..<d + 1]) =
             map (\<lambda>r. 1) (filter (\<lambda>r. r \<noteq> j) [0..<d + 1])"
    by (intro map_cong) simp_all
  then show ?thesis
    using True by (simp add: lagrange_basis_def map_replicate_const del: upt_Suc)
next
  case False
  have "m \<in> set (filter (\<lambda>r. r \<noteq> j) [0..<d + 1])"
    using False assms(4) by (simp del: upt_Suc)
  then have "(0::real) \<in> set (map (\<lambda>r. (tau_root ! m - tau_root ! r) / (tau_root ! j - tau_root ! r))
               (filter (\<lambda>r. r \<noteq> j) [0..<d + 1]))"
    by (metis (no_types, lifting) cancel_comm_monoid_add_class.diff_cancel div_0 image_eqI
        list.set_map)
  then show ?thesis
    using False by (simp add: lagrange_basis_def prod_list_zero_iff del: upt_Suc)
qed

lemma poly_eval_coeff:
  assumes "length p \<le> n + 1"
  shows "poly_eval p x = (\<Sum>k\<le>n. coeff p k * x ^ k)"
proof -
  have "(\<Sum>k\<le>n. coeff p k * x ^ k) = (\<Sum>k\<in>{..<length p}. coeff p k * x ^ k)"
    using assms by (intro sum.mono_neutral_right) (auto simp: coeff_def)
  also have "\<dots> = (\<Sum>k<length p. p ! k * x ^ k)"
    by (intro sum.cong) (auto simp: coeff_def)
  finally show ?thesis by (simp add: poly_eval_monom)
qed

lemma sum_delta_times:
  "(\<Sum>k\<le>(d::nat). (if k = 0 then 1 else 0) * f k) = (f 0 :: real)"
  by (induction d) simp_all

lemma sum_delta_divide:
  "(\<Sum>k\<le>(d::nat). (if k = 0 then 1 else 0) / f k) = (1 / f 0 :: real)"
  by (induction d) simp_all

lemma lagrange_coefficients_sum:
  assumes len: "length tau_root = d + 1" and dist: "distinct tau_root" and k: "k \<le> d"
  shows "(\<Sum>j\<le>d. coeff (lagrange_poly tau_root d j) k) = (if k = 0 then 1 else 0)"
proof -
  define c where "c k = (\<Sum>j\<le>d. coeff (lagrange_poly tau_root d j) k)" for k
  define e where "e k = c k - (if k = 0 then 1 else 0)" for k
  have ev: "(\<Sum>k\<le>d. e k * x ^ k) = (\<Sum>j\<le>d. lagrange_basis tau_root d j x) - 1" for x
  proof -
    have "(\<Sum>j\<le>d. lagrange_basis tau_root d j x) =
          (\<Sum>j\<le>d. \<Sum>k\<le>d. coeff (lagrange_poly tau_root d j) k * x ^ k)"
      by (intro sum.cong refl)
         (simp add: lagrange_poly_eval [symmetric] poly_eval_coeff lagrange_poly_length)
    also have "\<dots> = (\<Sum>k\<le>d. c k * x ^ k)"
      unfolding c_def sum_distrib_right by (rule sum.swap)
    finally have a: "(\<Sum>j\<le>d. lagrange_basis tau_root d j x) = (\<Sum>k\<le>d. c k * x ^ k)" .
    have "(\<Sum>k\<le>d. (if k = 0 then 1 else 0) * x ^ k) = (1::real)"
      by (simp add: sum_delta_times)
    then have "(\<Sum>k\<le>d. e k * x ^ k) = (\<Sum>k\<le>d. c k * x ^ k) - 1"
      by (simp add: e_def left_diff_distrib sum_subtractf)
    then show ?thesis using a by simp
  qed
  have root: "(\<Sum>k\<le>d. e k * (tau_root ! m) ^ k) = 0" if "m \<le> d" for m
  proof -
    have "(\<Sum>j\<le>d. lagrange_basis tau_root d j (tau_root ! m)) =
          (\<Sum>j\<le>d. if m = j then 1 else 0)"
      by (intro sum.cong refl) (simp add: lagrange_basis_at_node [OF len dist _ that])
    also have "\<dots> = 1" using that by simp
    finally show ?thesis by (simp add: ev)
  qed
  have all0: "\<forall>k\<le>d. e k = 0"
  proof (rule ccontr)
    assume "\<not> (\<forall>k\<le>d. e k = 0)"
    then obtain k where k: "k \<le> d" "e k \<noteq> 0" by auto
    have fin: "finite {z. (\<Sum>i\<le>d. e i * z ^ i) = 0}"
      and card: "card {z. (\<Sum>i\<le>d. e i * z ^ i) = 0} \<le> d"
      using polyfun_rootbound [of e k d] k by auto
    have "set tau_root \<subseteq> {z. (\<Sum>i\<le>d. e i * z ^ i) = 0}"
      using root len by (auto simp: in_set_conv_nth)
    then have "card (set tau_root) \<le> d"
      using card_mono [OF fin] card by (meson le_trans)
    then show False
      using distinct_card [OF dist] len by simp
  qed
  then have "c k = (if k = 0 then 1 else 0)"
    using k by (auto simp: e_def)
  then show ?thesis by (simp add: c_def)
qed

lemma lagrange_basis_sum:
  assumes "length tau_root = d + 1" and "distinct tau_root"
  shows "(\<Sum>j\<le>d. lagrange_basis tau_root d j x) = 1"
proof -
  have "(\<Sum>j\<le>d. lagrange_basis tau_root d j x) =
        (\<Sum>j\<le>d. \<Sum>k\<le>d. coeff (lagrange_poly tau_root d j) k * x ^ k)"
    by (intro sum.cong refl)
       (simp add: lagrange_poly_eval [symmetric] poly_eval_coeff lagrange_poly_length)
  also have "\<dots> = (\<Sum>k\<le>d. (\<Sum>j\<le>d. coeff (lagrange_poly tau_root d j) k) * x ^ k)"
    unfolding sum_distrib_right by (rule sum.swap)
  also have "\<dots> = (\<Sum>k\<le>d. (if k = 0 then 1 else 0) * x ^ k)"
    by (intro sum.cong refl) (simp add: lagrange_coefficients_sum [OF assms])
  also have "\<dots> = 1" by (simp add: sum_delta_times)
  finally show ?thesis .
qed

lemma anti_derivative_eval_1:
  "poly_eval (anti_derivative p) 1 = (\<Sum>k<length p. p ! k / real (Suc k))"
proof -
  have "poly_eval (anti_derivative p) 1 =
        poly_eval (map (\<lambda>k. p ! k / real (Suc k)) [0..<length p]) 1"
    by (simp add: anti_derivative_def)
  also have "\<dots> = (\<Sum>k<length p. p ! k / real (Suc k))"
    unfolding poly_eval_monom by simp
  finally show ?thesis .
qed

lemma anti_derivative_sum:
  assumes "length tau_root = d + 1" and "distinct tau_root"
  shows "(\<Sum>j\<le>d. poly_eval (anti_derivative (lagrange_poly tau_root d j)) 1) = 1"
proof -
  have "(\<Sum>j\<le>d. poly_eval (anti_derivative (lagrange_poly tau_root d j)) 1) =
        (\<Sum>j\<le>d. \<Sum>k\<le>d. coeff (lagrange_poly tau_root d j) k / real (Suc k))"
    by (intro sum.cong refl)
       (simp add: anti_derivative_eval_1 lagrange_poly_length coeff_def lessThan_Suc_atMost)
  also have "\<dots> = (\<Sum>k\<le>d. (\<Sum>j\<le>d. coeff (lagrange_poly tau_root d j) k) / real (Suc k))"
    unfolding sum_divide_distrib by (rule sum.swap)
  also have "\<dots> = (\<Sum>k\<le>d. (if k = 0 then 1 else 0) / real (Suc k))"
    by (intro sum.cong refl) (simp add: lagrange_coefficients_sum [OF assms])
  also have "\<dots> = 1" by (simp add: sum_delta_divide)
  finally show ?thesis .
qed

section \<open>Properties of the coefficients\<close>

lemma coefficients_step_D:
  "coef_D (coefficients_step tau_root scheme deg j cf) =
   (coef_D cf)[j := (if scheme = ''radau'' then (if j = deg then 1 else 0)
                     else poly_eval (lagrange_poly tau_root deg j) 1)]"
  by (simp add: coefficients_step_def Let_def)

lemma coefficients_step_B:
  "coef_B (coefficients_step tau_root scheme deg j cf) =
   (coef_B cf)[j := poly_eval (anti_derivative (lagrange_poly tau_root deg j)) 1]"
  by (simp add: coefficients_step_def Let_def)

lemma coefficients_fold_D:
  assumes "n \<le> length D0"
  shows "coef_D (fold (coefficients_step tau_root scheme deg) [0..<n]
            \<lparr>coef_C = C0, coef_D = D0, coef_B = B0\<rparr>) =
         map (\<lambda>j. if scheme = ''radau'' then (if j = deg then 1 else 0)
                   else poly_eval (lagrange_poly tau_root deg j) 1) [0..<n] @ drop n D0"
  using assms
proof (induction n)
  case 0
  then show ?case by simp
next
  case (Suc n)
  then have n: "n < length D0" by simp
  have "drop n D0 = D0 ! n # drop (Suc n) D0"
    using n by (simp add: Cons_nth_drop_Suc)
  then show ?case
    using Suc.IH n
    by (simp add: coefficients_step_D list_update_append)
qed

lemma coefficients_fold_B:
  assumes "n \<le> length B0"
  shows "coef_B (fold (coefficients_step tau_root scheme deg) [0..<n]
            \<lparr>coef_C = C0, coef_D = D0, coef_B = B0\<rparr>) =
         map (\<lambda>j. poly_eval (anti_derivative (lagrange_poly tau_root deg j)) 1) [0..<n]
         @ drop n B0"
  using assms
proof (induction n)
  case 0
  then show ?case by simp
next
  case (Suc n)
  then have n: "n < length B0" by simp
  have "drop n B0 = B0 ! n # drop (Suc n) B0"
    using n by (simp add: Cons_nth_drop_Suc)
  then show ?case
    using Suc.IH n
    by (simp add: coefficients_step_B list_update_append)
qed

lemma collocation_coefficients_D:
  "coef_D (collocation_coefficients tau_root scheme deg) =
   map (\<lambda>j. if scheme = ''radau'' then (if j = deg then 1 else 0)
             else lagrange_basis tau_root deg j 1) [0..<deg + 1]"
  unfolding collocation_coefficients_def
  by (subst coefficients_fold_D) (simp_all add: lagrange_poly_eval del: upt_Suc)

lemma collocation_coefficients_B:
  "coef_B (collocation_coefficients tau_root scheme deg) =
   map (\<lambda>j. poly_eval (anti_derivative (lagrange_poly tau_root deg j)) 1) [0..<deg + 1]"
  unfolding collocation_coefficients_def
  by (subst coefficients_fold_B) (simp_all del: upt_Suc)

lemma poly_eval_derivative:
  "((\<lambda>x. poly_eval p x) has_real_derivative poly_eval (derivative p) x) (at x)"
proof -
  have "((\<lambda>x. \<Sum>k<length p. p ! k * x ^ k) has_real_derivative
         (\<Sum>k<length p. p ! k * (real k * x ^ (k - 1)))) (at x)"
    by (auto intro!: derivative_eq_intros simp: mult_ac)
  moreover have "(\<Sum>k<length p. p ! k * (real k * x ^ (k - 1))) = poly_eval (derivative p) x"
  proof (cases p)
    case Nil
    then show ?thesis by (simp add: derivative_def)
  next
    case (Cons a q)
    have "(\<Sum>k<Suc (length q). (a # q) ! k * (real k * x ^ (k - 1))) =
          (\<Sum>k<length q. q ! k * (real (Suc k) * x ^ k))"
      by (simp add: sum.lessThan_Suc_shift del: sum.lessThan_Suc)
    also have "\<dots> = poly_eval (derivative (a # q)) x"
      unfolding poly_eval_monom by (simp add: derivative_def mult_ac)
    finally show ?thesis by (simp add: Cons)
  qed
  ultimately show ?thesis
    by (simp add: poly_eval_monom [abs_def])
qed

lemma derivative_anti_derivative: "derivative (anti_derivative p) = p"
  by (rule nth_equalityI) (simp_all add: derivative_def anti_derivative_def)

lemma anti_derivative_at_0: "poly_eval (anti_derivative p) 0 = 0"
  by (simp add: anti_derivative_def)

text \<open>
  Claim C5. Let the degree be d \<ge> 1 and the nodes tau_root = 0, tau_1, ..., tau_d be
  distinct (the collocation points are the d roots of the quadrature rule in (0, 1]).
  The continuity vector D has d + 1 entries; with the scheme radau, D[j] is 1 for j = d
  and 0 otherwise; with the scheme legendre, D[j] is L_j(1), where L_j is the Lagrange
  basis polynomial of node j (it is 1 at tau_root[j] and 0 at the other nodes).
\<close>

theorem continuity_coefficients:
  assumes "1 \<le> deg" and "length tau = deg" and "distinct (0 # tau)" and "j \<le> deg"
  shows "length (coef_D (collocation_coefficients (0 # tau) scheme deg)) = deg + 1 \<and>
         (scheme = ''radau'' \<longrightarrow>
            coef_D (collocation_coefficients (0 # tau) scheme deg) ! j =
              (if j = deg then 1 else 0)) \<and>
         (scheme = ''legendre'' \<longrightarrow>
            coef_D (collocation_coefficients (0 # tau) scheme deg) ! j =
              lagrange_basis (0 # tau) deg j 1) \<and>
         (\<forall>m\<le>deg. lagrange_basis (0 # tau) deg j ((0 # tau) ! m) = (if m = j then 1 else 0))"
proof -
  have j: "j < deg + 1" using assms(4) by simp
  have nth: "map f [0..<deg + 1] ! j = f j" for f :: "nat \<Rightarrow> real"
    using j by (simp del: upt_Suc)
  have len: "length (0 # tau) = deg + 1" using assms(2) by simp
  show ?thesis
    unfolding collocation_coefficients_D nth
    using lagrange_basis_at_node [OF len assms(3) assms(4)]
    by (simp del: upt_Suc)
qed

theorem continuity_coefficients_witness:
  "(1::nat) \<le> 2 \<and> length [1/3, 1 :: real] = 2 \<and> distinct [0, 1/3, 1 :: real] \<and>
   (2::nat) \<le> 2 \<and> (1::nat) \<le> 2 \<and>
   coef_D (collocation_coefficients [0, 1/3, 1] ''radau'' 2) ! 2 = 1 \<and>
   coef_D (collocation_coefficients [0, 1/3, 1] ''radau'' 2) ! 1 = 0 \<and>
   coef_D (collocation_coefficients [0, 1/3, 1] ''legendre'' 2) ! 1 =
     lagrange_basis [0, 1/3, 1] 2 1 1"
  using continuity_coefficients [of 2 "[1/3, 1]" 2 "''radau''"]
    continuity_coefficients [of 2 "[1/3, 1]" 1 "''radau''"]
    continuity_coefficients [of 2 "[1/3, 1]" 1 "''legendre''"]
  by simp

text \<open>
  The invariant of section 3 of the specification, in exact arithmetic: for distinct
  nodes the entries of D add up to 1 and the entries of B add up to 1, whatever the
  scheme, and B[j] is the value at 1 of the antiderivative of L_j that is 0 at 0. The
  source computes and stores doubles; their rounding is not modelled, so this lemma
  gives no tolerance for the stored values.
\<close>

lemma coefficient_sums_exact:
  assumes "1 \<le> deg" and "length tau = deg" and "distinct (0 # tau)"
  shows "(\<Sum>j\<le>deg. coef_D (collocation_coefficients (0 # tau) scheme deg) ! j) = 1 \<and>
         (\<Sum>j\<le>deg. coef_B (collocation_coefficients (0 # tau) scheme deg) ! j) = 1 \<and>
         (\<forall>j\<le>deg.
            coef_B (collocation_coefficients (0 # tau) scheme deg) ! j =
              poly_eval (anti_derivative (lagrange_poly (0 # tau) deg j)) 1 \<and>
            poly_eval (anti_derivative (lagrange_poly (0 # tau) deg j)) 0 = 0 \<and>
            (\<forall>x. ((\<lambda>x. poly_eval (anti_derivative (lagrange_poly (0 # tau) deg j)) x)
                    has_real_derivative lagrange_basis (0 # tau) deg j x) (at x)))"
proof -
  have len: "length (0 # tau) = deg + 1" using assms(2) by simp
  have nth: "map f [0..<deg + 1] ! j = f j" if "j \<le> deg" for f :: "nat \<Rightarrow> real" and j
    using that by (simp del: upt_Suc)
  have D: "(\<Sum>j\<le>deg. coef_D (collocation_coefficients (0 # tau) scheme deg) ! j) = 1"
  proof (cases "scheme = ''radau''")
    case True
    have "(\<Sum>j\<le>deg. coef_D (collocation_coefficients (0 # tau) scheme deg) ! j) =
          (\<Sum>j\<le>deg. if j = deg then 1 else 0)"
      by (intro sum.cong refl) (simp add: collocation_coefficients_D nth True del: upt_Suc)
    then show ?thesis by simp
  next
    case False
    have "(\<Sum>j\<le>deg. coef_D (collocation_coefficients (0 # tau) scheme deg) ! j) =
          (\<Sum>j\<le>deg. lagrange_basis (0 # tau) deg j 1)"
      by (intro sum.cong refl) (simp add: collocation_coefficients_D nth False del: upt_Suc)
    then show ?thesis
      using lagrange_basis_sum [OF len assms(3)] by simp
  qed
  have B: "(\<Sum>j\<le>deg. coef_B (collocation_coefficients (0 # tau) scheme deg) ! j) = 1"
  proof -
    have "(\<Sum>j\<le>deg. coef_B (collocation_coefficients (0 # tau) scheme deg) ! j) =
          (\<Sum>j\<le>deg. poly_eval (anti_derivative (lagrange_poly (0 # tau) deg j)) 1)"
      by (intro sum.cong refl) (simp add: collocation_coefficients_B nth del: upt_Suc)
    then show ?thesis
      using anti_derivative_sum [OF len assms(3)] by simp
  qed
  have F: "((\<lambda>x. poly_eval (anti_derivative (lagrange_poly (0 # tau) deg j)) x)
              has_real_derivative lagrange_basis (0 # tau) deg j x) (at x)" for j x
    using poly_eval_derivative [of "anti_derivative (lagrange_poly (0 # tau) deg j)" x]
    by (simp add: derivative_anti_derivative lagrange_poly_eval)
  show ?thesis
    using D B F by (simp add: collocation_coefficients_B nth anti_derivative_at_0 del: upt_Suc)
qed

section \<open>Properties of the forward step\<close>

lemma v_offset_Suc:
  "v_offset (Suc n) nx nz =
   v_offset n nx nz @ [last (v_offset n nx nz) + nx, last (v_offset n nx nz) + nx + nz]"
  by (simp add: v_offset_def Let_def)

lemma v_offset_props:
  "length (v_offset n nx nz) = 2 * n + 1 \<and>
   (\<forall>k\<le>n. v_offset n nx nz ! (2 * k) = k * (nx + nz)) \<and>
   (\<forall>k<n. v_offset n nx nz ! (2 * k + 1) = k * (nx + nz) + nx)"
proof (induction n)
  case 0
  then show ?case by (simp add: v_offset_def)
next
  case (Suc n)
  let ?o = "v_offset n nx nz"
  have len: "length ?o = 2 * n + 1" and ev: "\<And>k. k \<le> n \<Longrightarrow> ?o ! (2 * k) = k * (nx + nz)"
    and od: "\<And>k. k < n \<Longrightarrow> ?o ! (2 * k + 1) = k * (nx + nz) + nx"
    using Suc.IH by auto
  have ne: "?o \<noteq> []" using len by auto
  have last: "last ?o = n * (nx + nz)"
    using ev [of n] len by (simp add: last_conv_nth [OF ne])
  have a: "v_offset (Suc n) nx nz ! (2 * k) = k * (nx + nz)" if "k \<le> Suc n" for k
  proof (cases "k \<le> n")
    case True
    then show ?thesis using ev [OF True] len by (simp add: v_offset_Suc nth_append)
  next
    case False
    then have "k = Suc n" using that by simp
    then show ?thesis using len last by (simp add: v_offset_Suc nth_append)
  qed
  have b: "v_offset (Suc n) nx nz ! (2 * k + 1) = k * (nx + nz) + nx" if "k < Suc n" for k
  proof (cases "k < n")
    case True
    then show ?thesis using od [OF True] len by (simp add: v_offset_Suc nth_append)
  next
    case False
    then have "k = n" using that by simp
    then show ?thesis using len last by (simp add: v_offset_Suc nth_append)
  qed
  show ?case
    using a b len by (simp add: v_offset_Suc)
qed

lemma vertsplit_length: "length (vertsplit v (v_offset deg nx nz)) = 2 * deg"
  using v_offset_props [of deg nx nz] by (simp add: vertsplit_def)

lemma vertsplit_x:
  assumes "k < deg"
  shows "vertsplit v (v_offset deg nx nz) ! (2 * k) = node_x nx nz v (Suc k)"
proof -
  have "2 * k < length (v_offset deg nx nz) - 1"
    using v_offset_props [of deg nx nz] assms by simp
  moreover have "v_offset deg nx nz ! (2 * k) = k * (nx + nz)"
    and "v_offset deg nx nz ! Suc (2 * k) = k * (nx + nz) + nx"
    using v_offset_props [of deg nx nz] assms by simp_all
  ultimately show ?thesis
    by (simp add: vertsplit_def node_x_def)
qed

lemma vertsplit_z:
  assumes "k < deg"
  shows "vertsplit v (v_offset deg nx nz) ! (2 * k + 1) = node_z nx nz v (Suc k)"
proof -
  have "2 * k + 1 < length (v_offset deg nx nz) - 1"
    using v_offset_props [of deg nx nz] assms by simp
  moreover have "v_offset deg nx nz ! (2 * k + 1) = k * (nx + nz) + nx"
    using v_offset_props [of deg nx nz] assms by simp
  moreover have "v_offset deg nx nz ! (2 * Suc k) = Suc k * (nx + nz)"
    using v_offset_props [of deg nx nz] assms by (simp del: mult_Suc mult_Suc_right)
  ultimately show ?thesis
    by (simp add: vertsplit_def node_z_def)
qed


lemma upt_from_1_Suc: "[1..<Suc n + 1] = [1..<n + 1] @ [Suc n]"
  by simp

lemma collocated_fold:
  assumes "n \<le> length x0 - 1" and "length z0 = length x0"
  shows "\<exists>x z. fold (collocated_step vv) [1..<n + 1] (x0, z0, 0) = (x, z, 2 * n) \<and>
         length x = length x0 \<and> length z = length x0 \<and>
         (\<forall>j. 1 \<le> j \<and> j \<le> n \<longrightarrow>
            x ! j = vv ! (2 * (j - 1)) \<and> z ! j = vv ! (2 * (j - 1) + 1))"
  using assms(1)
proof (induction n)
  case 0
  then show ?case using assms(2) by simp
next
  case (Suc n)
  have "n \<le> length x0 - 1" using Suc.prems by simp
  from Suc.IH [OF this] obtain x z where
    st: "fold (collocated_step vv) [1..<n + 1] (x0, z0, 0) = (x, z, 2 * n)"
    and lx: "length x = length x0" and lz: "length z = length x0"
    and nodes: "\<forall>j. 1 \<le> j \<and> j \<le> n \<longrightarrow>
        x ! j = vv ! (2 * (j - 1)) \<and> z ! j = vv ! (2 * (j - 1) + 1)"
    by blast
  have inb: "Suc n < length x0" using Suc.prems by simp
  have step: "fold (collocated_step vv) [1..<Suc n + 1] (x0, z0, 0) =
     (x[Suc n := vv ! (2 * n)], z[Suc n := vv ! Suc (2 * n)], 2 * Suc n)"
    unfolding upt_from_1_Suc fold_append comp_def st
    by (simp add: collocated_step_def)
  have new: "x[Suc n := vv ! (2 * n)] ! j = vv ! (2 * (j - 1)) \<and>
             z[Suc n := vv ! Suc (2 * n)] ! j = vv ! (2 * (j - 1) + 1)"
    if j: "1 \<le> j" "j \<le> Suc n" for j
  proof (cases "j = Suc n")
    case True
    then show ?thesis using inb lx lz by simp
  next
    case False
    then have "j \<le> n" using j(2) by simp
    then show ?thesis using nodes j(1) False by simp
  qed
  show ?case
  proof (intro exI conjI)
    show "fold (collocated_step vv) [1..<Suc n + 1] (x0, z0, 0) =
       (x[Suc n := vv ! (2 * n)], z[Suc n := vv ! Suc (2 * n)], 2 * Suc n)"
      by (rule step)
    show "length (x[Suc n := vv ! (2 * n)]) = length x0" using lx by simp
    show "length (z[Suc n := vv ! Suc (2 * n)]) = length x0" using lz by simp
    show "\<forall>j. 1 \<le> j \<and> j \<le> Suc n \<longrightarrow>
       x[Suc n := vv ! (2 * n)] ! j = vv ! (2 * (j - 1)) \<and>
       z[Suc n := vv ! Suc (2 * n)] ! j = vv ! (2 * (j - 1) + 1)"
      using new by blast
  qed
qed


lemma collocated_states_nodes:
  assumes "1 \<le> j" and "j \<le> deg"
  shows "fst (collocated_states deg (vertsplit v (v_offset deg nx nz))) ! j = node_x nx nz v j"
    and "fst (snd (collocated_states deg (vertsplit v (v_offset deg nx nz)))) ! j =
         node_z nx nz v j"
proof -
  let ?vv = "vertsplit v (v_offset deg nx nz)"
  obtain x z where st: "collocated_states deg ?vv = (x, z, 2 * deg)"
    and nodes: "\<forall>j. 1 \<le> j \<and> j \<le> deg \<longrightarrow>
        x ! j = ?vv ! (2 * (j - 1)) \<and> z ! j = ?vv ! (2 * (j - 1) + 1)"
    using collocated_fold [of deg "replicate (deg + 1) []" "replicate (deg + 1) []" ?vv]
    unfolding collocated_states_def by auto
  obtain k where j: "j = Suc k" and k: "k < deg"
    using assms by (cases j) auto
  have "x ! j = ?vv ! (2 * k)" and "z ! j = ?vv ! (2 * k + 1)"
    using nodes assms by (simp_all add: j)
  then show "fst (collocated_states deg ?vv) ! j = node_x nx nz v j"
    and "fst (snd (collocated_states deg ?vv)) ! j = node_z nx nz v j"
    using vertsplit_x [OF k, of v nx nz] vertsplit_z [OF k, of v nx nz]
    by (simp_all add: st j)
qed

lemma scal_length: "length (scal c x) = length x"
  by (simp add: scal_def)

lemma vadd_length: "length (vadd x y) = min (length x) (length y)"
  by (simp add: vadd_def)

lemma vsub_length: "length (vsub x y) = min (length x) (length y)"
  by (simp add: vsub_def)

lemma scal_nth: "i < length x \<Longrightarrow> scal c x ! i = c * x ! i"
  by (simp add: scal_def)

lemma vadd_nth: "i < length x \<Longrightarrow> i < length y \<Longrightarrow> vadd x y ! i = x ! i + y ! i"
  by (simp add: vadd_def)

lemma vsub_nth: "i < length x \<Longrightarrow> i < length y \<Longrightarrow> vsub x y ! i = x ! i - y ! i"
  by (simp add: vsub_def)

text \<open>An accumulation a += c r * xs r over a list of indices, entry by entry.\<close>

lemma accumulate_length:
  assumes "\<And>r. r \<in> set rs \<Longrightarrow> length (xs r) = n" and "length a = n"
  shows "length (fold (\<lambda>r acc. vadd acc (scal (c r) (xs r))) rs a) = n"
  using assms
  by (induction rs arbitrary: a) (simp_all add: vadd_length scal_length)

lemma accumulate_nth:
  assumes "\<And>r. r \<in> set rs \<Longrightarrow> length (xs r) = n" and "length a = n" and "i < n"
  shows "fold (\<lambda>r acc. vadd acc (scal (c r) (xs r))) rs a ! i =
         a ! i + (\<Sum>r\<leftarrow>rs. c r * xs r ! i)"
  using assms
proof (induction rs arbitrary: a)
  case Nil
  then show ?case by simp
next
  case (Cons r rs)
  have lr: "length (xs r) = n" using Cons.prems(1) by simp
  have l: "length (vadd a (scal (c r) (xs r))) = n"
    using lr Cons.prems(2) by (simp add: vadd_length scal_length)
  have "fold (\<lambda>r acc. vadd acc (scal (c r) (xs r))) rs (vadd a (scal (c r) (xs r))) ! i =
        vadd a (scal (c r) (xs r)) ! i + (\<Sum>r\<leftarrow>rs. c r * xs r ! i)"
    by (rule Cons.IH) (use Cons.prems l in simp_all)
  moreover have "vadd a (scal (c r) (xs r)) ! i = a ! i + c r * xs r ! i"
    using lr Cons.prems(2,3) by (simp add: vadd_nth scal_nth scal_length)
  ultimately show ?case by simp
qed

lemma sum_list_upt_1: "(\<Sum>r\<leftarrow>[1..<d + 1]. g r) = (\<Sum>r = 1..d. (g r :: real))"
proof -
  have "(\<Sum>r\<leftarrow>[1..<d + 1]. g r) = sum g (set [1..<d + 1])"
    by (rule sum_list_distinct_conv_sum_set) simp
  also have "set [1..<d + 1] = {1..d}" by auto
  finally show ?thesis .
qed

lemma node_x_length:
  assumes "1 \<le> j" and "j \<le> d" and "length v = d * (nx + nz)"
  shows "length (node_x nx nz v j) = nx"
proof -
  obtain k where j: "j = Suc k" using assms(1) by (cases j) auto
  have "Suc k * (nx + nz) \<le> d * (nx + nz)"
    using assms(2) unfolding j by (rule mult_le_mono1)
  then show ?thesis
    using assms(3) by (simp add: node_x_def j)
qed

lemma zeros_length: "length (zeros n) = n"
  by (simp add: zeros_def)

lemma zeros_nth: "i < n \<Longrightarrow> zeros n ! i = 0"
  by (simp add: zeros_def)

lemma weighted_sum_length:
  assumes x: "\<And>r. 1 \<le> r \<Longrightarrow> r \<le> d \<Longrightarrow> x ! r = xs r"
    and len: "\<And>r. 1 \<le> r \<Longrightarrow> r \<le> d \<Longrightarrow> length (xs r) = n"
    and a: "length a = n"
  shows "length (fold (\<lambda>r acc. vadd acc (scal (c r) (x ! r))) [1..<d + 1] a) = n"
proof -
  have l: "length (x ! r) = n" if "r \<in> set [1..<d + 1]" for r
    using that x [of r] len [of r] by (simp del: upt_Suc)
  show ?thesis
    by (rule accumulate_length [where xs = "\<lambda>r. x ! r"]) (use l a in simp_all)
qed

lemma weighted_sum_nth:
  assumes x: "\<And>r. 1 \<le> r \<Longrightarrow> r \<le> d \<Longrightarrow> x ! r = xs r"
    and len: "\<And>r. 1 \<le> r \<Longrightarrow> r \<le> d \<Longrightarrow> length (xs r) = n"
    and a: "length a = n" and i: "i < n"
  shows "fold (\<lambda>r acc. vadd acc (scal (c r) (x ! r))) [1..<d + 1] a ! i =
         a ! i + (\<Sum>r = 1..d. c r * xs r ! i)"
proof -
  have l: "length (x ! r) = n" if "r \<in> set [1..<d + 1]" for r
    using that x [of r] len [of r] by (simp del: upt_Suc)
  have "fold (\<lambda>r acc. vadd acc (scal (c r) (x ! r))) [1..<d + 1] a ! i =
        a ! i + (\<Sum>r\<leftarrow>[1..<d + 1]. c r * x ! r ! i)"
    by (rule accumulate_nth [where xs = "\<lambda>r. x ! r"]) (use l a i in simp_all)
  also have "(\<Sum>r\<leftarrow>[1..<d + 1]. c r * x ! r ! i) = (\<Sum>r = 1..d. c r * x ! r ! i)"
    by (rule sum_list_upt_1)
  also have "\<dots> = (\<Sum>r = 1..d. c r * xs r ! i)"
    by (intro sum.cong refl) (simp add: x)
  finally show ?thesis .
qed

lemma weighted_sum_map:
  assumes "\<And>r. 1 \<le> r \<Longrightarrow> r \<le> d \<Longrightarrow> x ! r = xs r"
    and "\<And>r. 1 \<le> r \<Longrightarrow> r \<le> d \<Longrightarrow> length (xs r) = n"
    and "length a = n"
  shows "fold (\<lambda>r acc. vadd acc (scal (c r) (x ! r))) [1..<d + 1] a =
         map (\<lambda>i. a ! i + (\<Sum>r = 1..d. c r * xs r ! i)) [0..<n]"
proof (rule nth_equalityI)
  show "length (fold (\<lambda>r acc. vadd acc (scal (c r) (x ! r))) [1..<d + 1] a) =
        length (map (\<lambda>i. a ! i + (\<Sum>r = 1..d. c r * xs r ! i)) [0..<n])"
    using weighted_sum_length [of d x xs n a c, OF assms] by simp
next
  fix i
  assume "i < length (fold (\<lambda>r acc. vadd acc (scal (c r) (x ! r))) [1..<d + 1] a)"
  then have i: "i < n"
    using weighted_sum_length [of d x xs n a c, OF assms] by simp
  show "fold (\<lambda>r acc. vadd acc (scal (c r) (x ! r))) [1..<d + 1] a ! i =
        map (\<lambda>i. a ! i + (\<Sum>r = 1..d. c r * xs r ! i)) [0..<n] ! i"
    using weighted_sum_nth [of d x xs n a i c, OF assms i] i by simp
qed

lemma accumulate_map:
  assumes "\<And>j. 1 \<le> j \<Longrightarrow> j \<le> d \<Longrightarrow> q j = q' j"
    and "\<And>j. 1 \<le> j \<Longrightarrow> j \<le> d \<Longrightarrow> length (q' j) = n"
  shows "fold (\<lambda>j acc. vadd acc (scal (c j) (q j))) [1..<d + 1] (zeros n) =
         map (\<lambda>i. \<Sum>j = 1..d. c j * q' j ! i) [0..<n]"
proof -
  have lq: "length (q j) = n" if "j \<in> set [1..<d + 1]" for j
    using that assms(1) [of j] assms(2) [of j] by (simp del: upt_Suc)
  have len: "length (fold (\<lambda>j acc. vadd acc (scal (c j) (q j))) [1..<d + 1] (zeros n)) = n"
    by (rule accumulate_length [of "[1..<d + 1]" q n "zeros n", OF lq zeros_length])
  show ?thesis
  proof (rule nth_equalityI)
    show "length (fold (\<lambda>j acc. vadd acc (scal (c j) (q j))) [1..<d + 1] (zeros n)) =
          length (map (\<lambda>i. \<Sum>j = 1..d. c j * q' j ! i) [0..<n])"
      using len by simp
  next
    fix i
    assume "i < length (fold (\<lambda>j acc. vadd acc (scal (c j) (q j))) [1..<d + 1] (zeros n))"
    then have i: "i < n" using len by simp
    have "fold (\<lambda>j acc. vadd acc (scal (c j) (q j))) [1..<d + 1] (zeros n) ! i =
          zeros n ! i + (\<Sum>j\<leftarrow>[1..<d + 1]. c j * q j ! i)"
      by (rule accumulate_nth [of "[1..<d + 1]" q n "zeros n", OF lq zeros_length i])
    also have "(\<Sum>j\<leftarrow>[1..<d + 1]. c j * q j ! i) = (\<Sum>j = 1..d. c j * q j ! i)"
      by (rule sum_list_upt_1)
    also have "\<dots> = (\<Sum>j = 1..d. c j * q' j ! i)"
    proof (rule sum.cong [OF refl])
      fix j
      assume "j \<in> {1..d}"
      then have "q j = q' j" using assms(1) [of j] by simp
      then show "c j * q j ! i = c j * q' j ! i" by simp
    qed
    finally show "fold (\<lambda>j acc. vadd acc (scal (c j) (q j))) [1..<d + 1] (zeros n) ! i =
          map (\<lambda>i. \<Sum>j = 1..d. c j * q' j ! i) [0..<n] ! i"
      using i by (simp add: zeros_nth)
  qed
qed

lemma vsub_scal_map:
  assumes "length y = n" and "length w = n"
  shows "vsub (scal c y) w = map (\<lambda>i. c * y ! i - w ! i) [0..<n]"
  using assms
  by (intro nth_equalityI) (simp_all add: vsub_length scal_length vsub_nth scal_nth)

lemma fstep_fold:
  "fold (fstep_node deg cf f tt h x0 p u x z) js (eq0, xf0, qf0) =
   (eq0 @ concat (map (\<lambda>j.
       [vsub (scal h (DAE_ODE (f (tt ! j) (x ! j) (z ! j) p u)))
          (fold (\<lambda>r xp_j. vadd xp_j (scal (coef_C cf ! r ! j) (x ! r)))
             [1..<deg + 1] (scal (coef_C cf ! 0 ! j) x0)),
        DAE_ALG (f (tt ! j) (x ! j) (z ! j) p u)]) js),
    fold (\<lambda>j acc. vadd acc (scal (coef_D cf ! j) (x ! j))) js xf0,
    fold (\<lambda>j acc. vadd acc (scal (coef_B cf ! j * h) (DAE_QUAD (f (tt ! j) (x ! j) (z ! j) p u))))
      js qf0)"
proof (induction js arbitrary: eq0 xf0 qf0)
  case Nil
  then show ?case by simp
next
  case (Cons j js)
  show ?case
    unfolding fold_Cons comp_def
    by (subst fstep_node_def) (simp add: Let_def Cons.IH del: upt_Suc)
qed

lemma concat_pairs: "concat (concat (map (\<lambda>j. [a j, b j]) js)) = concat (map (\<lambda>j. a j @ b j) js)"
  by (induction js) simp_all


lemma fstep_unfold:
  "fstep deg nx nz nq tau_root cf f inp =
   (let x = fst (collocated_states deg (vertsplit (FSTEP_V0 inp) (v_offset deg nx nz)));
        z = fst (snd (collocated_states deg (vertsplit (FSTEP_V0 inp) (v_offset deg nx nz))));
        tt = map (\<lambda>d. FSTEP_T0 inp + FSTEP_H inp * tau_root ! d) [0..<deg + 1];
        F = (\<lambda>j. f (tt ! j) (x ! j) (z ! j) (FSTEP_P inp) (FSTEP_U inp))
    in \<lparr>FSTEP_XF = fold (\<lambda>j acc. vadd acc (scal (coef_D cf ! j) (x ! j))) [1..<deg + 1]
                       (scal (coef_D cf ! 0) (FSTEP_X0 inp)),
        FSTEP_VF = concat (map (\<lambda>j.
            vsub (scal (FSTEP_H inp) (DAE_ODE (F j)))
              (fold (\<lambda>r xp_j. vadd xp_j (scal (coef_C cf ! r ! j) (x ! r)))
                 [1..<deg + 1] (scal (coef_C cf ! 0 ! j) (FSTEP_X0 inp)))
            @ DAE_ALG (F j)) [1..<deg + 1]),
        FSTEP_QF = fold (\<lambda>j acc. vadd acc (scal (coef_B cf ! j * FSTEP_H inp) (DAE_QUAD (F j))))
                       [1..<deg + 1] (zeros nq)\<rparr>)"
  unfolding fstep_def Let_def case_prod_beta fstep_fold
  by (simp add: concat_pairs del: upt_Suc)

lemma fstep_node_args:
  assumes "1 \<le> j" and "j \<le> deg"
  shows "f (map (\<lambda>d. FSTEP_T0 inp + FSTEP_H inp * tau_root ! d) [0..<deg + 1] ! j)
           (fst (collocated_states deg (vertsplit (FSTEP_V0 inp) (v_offset deg nx nz))) ! j)
           (fst (snd (collocated_states deg (vertsplit (FSTEP_V0 inp) (v_offset deg nx nz)))) ! j)
           (FSTEP_P inp) (FSTEP_U inp) =
         dae_at_node nx nz tau_root f inp j"
proof -
  have "map (\<lambda>d. FSTEP_T0 inp + FSTEP_H inp * tau_root ! d) [0..<deg + 1] ! j =
        FSTEP_T0 inp + FSTEP_H inp * tau_root ! j"
    using assms by (simp del: upt_Suc)
  then show ?thesis
    using collocated_states_nodes [OF assms, of "FSTEP_V0 inp" nx nz]
    by (simp add: dae_at_node_def)
qed


lemma forward_block:
  assumes j: "1 \<le> j" "j \<le> deg"
    and x0: "length (FSTEP_X0 inp) = nx"
    and v: "length (FSTEP_V0 inp) = deg * (nx + nz)"
    and ode: "length (DAE_ODE (dae_at_node nx nz tau_root f inp j)) = nx"
  shows "vsub (scal (FSTEP_H inp) (DAE_ODE (dae_at_node nx nz tau_root f inp j)))
           (fold (\<lambda>r xp_j. vadd xp_j (scal (coef_C cf ! r ! j)
                (fst (collocated_states deg (vertsplit (FSTEP_V0 inp) (v_offset deg nx nz))) ! r)))
              [1..<deg + 1] (scal (coef_C cf ! 0 ! j) (FSTEP_X0 inp)))
         @ DAE_ALG (dae_at_node nx nz tau_root f inp j) =
         forward_residual_block deg nx nz tau_root cf f inp j"
proof -
  let ?x = "fst (collocated_states deg (vertsplit (FSTEP_V0 inp) (v_offset deg nx nz)))"
  have xs: "?x ! r = node_x nx nz (FSTEP_V0 inp) r" if "1 \<le> r" "r \<le> deg" for r
    using collocated_states_nodes(1) [OF that] .
  have ls: "length (node_x nx nz (FSTEP_V0 inp) r) = nx" if "1 \<le> r" "r \<le> deg" for r
    using node_x_length [OF that v] .
  have a: "length (scal (coef_C cf ! 0 ! j) (FSTEP_X0 inp)) = nx"
    using x0 by (simp add: scal_length)
  have xp: "fold (\<lambda>r xp_j. vadd xp_j (scal (coef_C cf ! r ! j) (?x ! r)))
              [1..<deg + 1] (scal (coef_C cf ! 0 ! j) (FSTEP_X0 inp)) =
        map (\<lambda>i. scal (coef_C cf ! 0 ! j) (FSTEP_X0 inp) ! i +
               (\<Sum>r = 1..deg. coef_C cf ! r ! j * node_x nx nz (FSTEP_V0 inp) r ! i)) [0..<nx]"
    by (rule weighted_sum_map [OF xs ls a])
  have "vsub (scal (FSTEP_H inp) (DAE_ODE (dae_at_node nx nz tau_root f inp j)))
          (map (\<lambda>i. scal (coef_C cf ! 0 ! j) (FSTEP_X0 inp) ! i +
               (\<Sum>r = 1..deg. coef_C cf ! r ! j * node_x nx nz (FSTEP_V0 inp) r ! i)) [0..<nx]) =
        map (\<lambda>i. FSTEP_H inp * DAE_ODE (dae_at_node nx nz tau_root f inp j) ! i -
               (coef_C cf ! 0 ! j * FSTEP_X0 inp ! i +
                (\<Sum>r = 1..deg. coef_C cf ! r ! j * node_x nx nz (FSTEP_V0 inp) r ! i)))
          [0..<nx]"
    using ode x0
    by (subst vsub_scal_map [where n = nx]) (simp_all add: scal_nth)
  then show ?thesis
    unfolding xp by (simp add: forward_residual_block_def)
qed

text \<open>
  Claim C2. For a degree d \<ge> 1 (with x0 of size nx, v of size d (nx + nz) and ode of
  size nx), the equations output of the forward step is the stack, over the nodes
  j = 1, ..., d, of h ode_j - (C[0][j] x0 + sum over r = 1..d of C[r][j] x_r) followed by
  alg_j, where (ode_j, alg_j, quad_j) is the DAE callable at
  (t0 + h tau_root[j], x_j, z_j, p, u). It is a function of the given v: the residual is
  put out, not solved.
\<close>

theorem forward_residual:
  assumes "1 \<le> deg"
    and "length (FSTEP_X0 inp) = nx"
    and "length (FSTEP_V0 inp) = deg * (nx + nz)"
    and "\<forall>j. 1 \<le> j \<and> j \<le> deg \<longrightarrow>
           length (DAE_ODE (dae_at_node nx nz tau_root f inp j)) = nx"
  shows "FSTEP_VF (fstep deg nx nz nq tau_root cf f inp) =
         concat (map (forward_residual_block deg nx nz tau_root cf f inp) [1..<deg + 1])"
proof -
  let ?x = "fst (collocated_states deg (vertsplit (FSTEP_V0 inp) (v_offset deg nx nz)))"
  let ?z = "fst (snd (collocated_states deg (vertsplit (FSTEP_V0 inp) (v_offset deg nx nz))))"
  let ?tt = "map (\<lambda>d. FSTEP_T0 inp + FSTEP_H inp * tau_root ! d) [0..<deg + 1]"
  let ?F = "\<lambda>j. f (?tt ! j) (?x ! j) (?z ! j) (FSTEP_P inp) (FSTEP_U inp)"
  let ?blk = "\<lambda>j. vsub (scal (FSTEP_H inp) (DAE_ODE (?F j)))
              (fold (\<lambda>r xp_j. vadd xp_j (scal (coef_C cf ! r ! j) (?x ! r)))
                 [1..<deg + 1] (scal (coef_C cf ! 0 ! j) (FSTEP_X0 inp)))
            @ DAE_ALG (?F j)"
  have vf: "FSTEP_VF (fstep deg nx nz nq tau_root cf f inp) = concat (map ?blk [1..<deg + 1])"
    unfolding fstep_unfold Let_def fstep_out.simps ..
  have blocks: "map ?blk [1..<deg + 1] =
        map (forward_residual_block deg nx nz tau_root cf f inp) [1..<deg + 1]"
  proof (rule map_cong [OF refl])
    fix j
    assume "j \<in> set [1..<deg + 1]"
    then have j: "1 \<le> j" "j \<le> deg" by (simp_all del: upt_Suc)
    have len: "length (DAE_ODE (dae_at_node nx nz tau_root f inp j)) = nx"
      using assms(4) j by blast
    show "?blk j = forward_residual_block deg nx nz tau_root cf f inp j"
      unfolding fstep_node_args [OF j]
      by (rule forward_block [OF j assms(2,3) len])
  qed
  show ?thesis
    unfolding vf blocks ..
qed

theorem forward_residual_witness:
  "(1::nat) \<le> 2 \<and>
   FSTEP_VF (fstep 2 1 1 1 [0, 1/3, 1]
     \<lparr>coef_C = [[- 4, - 2, 2], [9 / 2, 3 / 2, - (9 / 2)], [- (1 / 2), 1 / 2, 5 / 2]],
      coef_D = [0, 0, 1], coef_B = [0, 3 / 4, 1 / 4]\<rparr>
     (\<lambda>t x z p u. \<lparr>DAE_ODE = [hd x + hd z], DAE_ALG = [hd z - t], DAE_QUAD = [hd x * hd p]\<rparr>)
     \<lparr>FSTEP_T0 = 0, FSTEP_H = 3, FSTEP_X0 = [1], FSTEP_P = [2], FSTEP_U = [],
      FSTEP_V0 = [2, 3, 4, 5]\<rparr>) = [12, 2, 24, 2]"
  using forward_residual [of 2
     "\<lparr>FSTEP_T0 = 0, FSTEP_H = 3, FSTEP_X0 = [1], FSTEP_P = [2], FSTEP_U = [],
      FSTEP_V0 = [2, 3, 4, 5]\<rparr>" 1 1 "[0, 1/3, 1]"
     "\<lambda>t x z p u. \<lparr>DAE_ODE = [hd x + hd z], DAE_ALG = [hd z - t], DAE_QUAD = [hd x * hd p]\<rparr>"
     1
     "\<lparr>coef_C = [[- 4, - 2, 2], [9 / 2, 3 / 2, - (9 / 2)], [- (1 / 2), 1 / 2, 5 / 2]],
      coef_D = [0, 0, 1], coef_B = [0, 3 / 4, 1 / 4]\<rparr>"]
  by (simp add: forward_residual_block_def dae_at_node_def node_x_def node_z_def
      upt_rec numeral_2_eq_2)


text \<open>
  Claim C3. For a degree d \<ge> 1 (with x0 of size nx, v of size d (nx + nz) and quad of
  size nq), the forward step, a function of the inputs t0, h, x0, p, u, v with the
  outputs xf, the equations and qf, gives xf = D[0] x0 + sum over j = 1..d of D[j] x_j and
  qf = sum over j = 1..d of (B[j] h) quad_j.
\<close>

theorem forward_outputs:
  assumes "1 \<le> deg"
    and "length (FSTEP_X0 inp) = nx"
    and "length (FSTEP_V0 inp) = deg * (nx + nz)"
    and "\<forall>j. 1 \<le> j \<and> j \<le> deg \<longrightarrow>
           length (DAE_QUAD (dae_at_node nx nz tau_root f inp j)) = nq"
  shows "FSTEP_XF (fstep deg nx nz nq tau_root cf f inp) =
           map (\<lambda>i. coef_D cf ! 0 * FSTEP_X0 inp ! i +
                     (\<Sum>j = 1..deg. coef_D cf ! j * node_x nx nz (FSTEP_V0 inp) j ! i))
             [0..<nx] \<and>
         FSTEP_QF (fstep deg nx nz nq tau_root cf f inp) =
           map (\<lambda>i. \<Sum>j = 1..deg. (coef_B cf ! j * FSTEP_H inp) *
                       DAE_QUAD (dae_at_node nx nz tau_root f inp j) ! i)
             [0..<nq]"
proof -
  let ?x = "fst (collocated_states deg (vertsplit (FSTEP_V0 inp) (v_offset deg nx nz)))"
  let ?z = "fst (snd (collocated_states deg (vertsplit (FSTEP_V0 inp) (v_offset deg nx nz))))"
  let ?tt = "map (\<lambda>d. FSTEP_T0 inp + FSTEP_H inp * tau_root ! d) [0..<deg + 1]"
  let ?F = "\<lambda>j. f (?tt ! j) (?x ! j) (?z ! j) (FSTEP_P inp) (FSTEP_U inp)"
  have F: "?F j = dae_at_node nx nz tau_root f inp j" if "1 \<le> j" "j \<le> deg" for j
    by (rule fstep_node_args [OF that])
  have xs: "?x ! r = node_x nx nz (FSTEP_V0 inp) r" if "1 \<le> r" "r \<le> deg" for r
    using collocated_states_nodes(1) [OF that] .
  have ls: "length (node_x nx nz (FSTEP_V0 inp) r) = nx" if "1 \<le> r" "r \<le> deg" for r
    using node_x_length [OF that assms(3)] .
  have a: "length (scal (coef_D cf ! 0) (FSTEP_X0 inp)) = nx"
    using assms(2) by (simp add: scal_length)
  have "FSTEP_XF (fstep deg nx nz nq tau_root cf f inp) =
        fold (\<lambda>j acc. vadd acc (scal (coef_D cf ! j) (?x ! j))) [1..<deg + 1]
          (scal (coef_D cf ! 0) (FSTEP_X0 inp))"
    unfolding fstep_unfold Let_def fstep_out.simps ..
  also have "\<dots> = map (\<lambda>i. scal (coef_D cf ! 0) (FSTEP_X0 inp) ! i +
                 (\<Sum>j = 1..deg. coef_D cf ! j * node_x nx nz (FSTEP_V0 inp) j ! i)) [0..<nx]"
    by (rule weighted_sum_map [OF xs ls a])
  also have "\<dots> = map (\<lambda>i. coef_D cf ! 0 * FSTEP_X0 inp ! i +
                     (\<Sum>j = 1..deg. coef_D cf ! j * node_x nx nz (FSTEP_V0 inp) j ! i))
             [0..<nx]"
    using assms(2) by (simp add: scal_nth)
  finally have xf: "FSTEP_XF (fstep deg nx nz nq tau_root cf f inp) =
           map (\<lambda>i. coef_D cf ! 0 * FSTEP_X0 inp ! i +
                     (\<Sum>j = 1..deg. coef_D cf ! j * node_x nx nz (FSTEP_V0 inp) j ! i))
             [0..<nx]" .
  have lq: "length (DAE_QUAD (dae_at_node nx nz tau_root f inp j)) = nq"
    if "1 \<le> j" "j \<le> deg" for j
    using assms(4) that by blast
  have "FSTEP_QF (fstep deg nx nz nq tau_root cf f inp) =
        fold (\<lambda>j acc. vadd acc (scal (coef_B cf ! j * FSTEP_H inp) (DAE_QUAD (?F j))))
          [1..<deg + 1] (zeros nq)"
    unfolding fstep_unfold Let_def fstep_out.simps ..
  also have "\<dots> = map (\<lambda>i. \<Sum>j = 1..deg. (coef_B cf ! j * FSTEP_H inp) *
                       DAE_QUAD (dae_at_node nx nz tau_root f inp j) ! i) [0..<nq]"
    by (rule accumulate_map [where q' = "\<lambda>j. DAE_QUAD (dae_at_node nx nz tau_root f inp j)"])
       (simp_all only: F lq)
  finally have qf: "FSTEP_QF (fstep deg nx nz nq tau_root cf f inp) =
           map (\<lambda>i. \<Sum>j = 1..deg. (coef_B cf ! j * FSTEP_H inp) *
                       DAE_QUAD (dae_at_node nx nz tau_root f inp j) ! i) [0..<nq]" .
  show ?thesis
    using xf qf by (intro conjI)
qed

theorem forward_outputs_witness:
  "(1::nat) \<le> 2 \<and>
   FSTEP_XF (fstep 2 1 1 1 [0, 1/3, 1]
     \<lparr>coef_C = [[- 4, - 2, 2], [9 / 2, 3 / 2, - (9 / 2)], [- (1 / 2), 1 / 2, 5 / 2]],
      coef_D = [0, 0, 1], coef_B = [0, 3 / 4, 1 / 4]\<rparr>
     (\<lambda>t x z p u. \<lparr>DAE_ODE = [hd x + hd z], DAE_ALG = [hd z - t], DAE_QUAD = [hd x * hd p]\<rparr>)
     \<lparr>FSTEP_T0 = 0, FSTEP_H = 3, FSTEP_X0 = [1], FSTEP_P = [2], FSTEP_U = [],
      FSTEP_V0 = [2, 3, 4, 5]\<rparr>) = [4] \<and>
   FSTEP_QF (fstep 2 1 1 1 [0, 1/3, 1]
     \<lparr>coef_C = [[- 4, - 2, 2], [9 / 2, 3 / 2, - (9 / 2)], [- (1 / 2), 1 / 2, 5 / 2]],
      coef_D = [0, 0, 1], coef_B = [0, 3 / 4, 1 / 4]\<rparr>
     (\<lambda>t x z p u. \<lparr>DAE_ODE = [hd x + hd z], DAE_ALG = [hd z - t], DAE_QUAD = [hd x * hd p]\<rparr>)
     \<lparr>FSTEP_T0 = 0, FSTEP_H = 3, FSTEP_X0 = [1], FSTEP_P = [2], FSTEP_U = [],
      FSTEP_V0 = [2, 3, 4, 5]\<rparr>) = [15]"
  using forward_outputs [of 2
     "\<lparr>FSTEP_T0 = 0, FSTEP_H = 3, FSTEP_X0 = [1], FSTEP_P = [2], FSTEP_U = [],
      FSTEP_V0 = [2, 3, 4, 5]\<rparr>" 1 1 "[0, 1/3, 1]"
     "\<lambda>t x z p u. \<lparr>DAE_ODE = [hd x + hd z], DAE_ALG = [hd z - t], DAE_QUAD = [hd x * hd p]\<rparr>"
     1
     "\<lparr>coef_C = [[- 4, - 2, 2], [9 / 2, 3 / 2, - (9 / 2)], [- (1 / 2), 1 / 2, 5 / 2]],
      coef_D = [0, 0, 1], coef_B = [0, 3 / 4, 1 / 4]\<rparr>"]
  by (simp add: dae_at_node_def node_x_def node_z_def upt_rec numeral_2_eq_2)

section \<open>Properties of the backward step\<close>

lemma bstep_fold:
  "fold (bstep_node deg cf g tt h rx0 p u rp x z rx rz) js (eq0, rxf0, rqf0, uqf0) =
   (eq0 @ concat (map (\<lambda>j.
       [vsub (scal (h * coef_B cf ! j)
               (RDAE_RODE (g (tt ! j) (x ! j) (z ! j) p u (rx ! j) (rz ! j) rp)))
          (fold (\<lambda>r rxp_j. vadd rxp_j (scal (coef_B cf ! r * coef_C cf ! j ! r) (rx ! r)))
             [1..<deg + 1] (scal (- coef_D cf ! j) rx0)),
        RDAE_RALG (g (tt ! j) (x ! j) (z ! j) p u (rx ! j) (rz ! j) rp)]) js),
    fold (\<lambda>j acc. vadd acc (scal (- coef_B cf ! j * coef_C cf ! 0 ! j) (rx ! j))) js rxf0,
    fold (\<lambda>j acc. vadd acc (scal (h * coef_B cf ! j)
        (RDAE_RQUAD (g (tt ! j) (x ! j) (z ! j) p u (rx ! j) (rz ! j) rp)))) js rqf0,
    fold (\<lambda>j acc. vadd acc (scal (h * coef_B cf ! j)
        (RDAE_UQUAD (g (tt ! j) (x ! j) (z ! j) p u (rx ! j) (rz ! j) rp)))) js uqf0)"
proof (induction js arbitrary: eq0 rxf0 rqf0 uqf0)
  case Nil
  then show ?case by simp
next
  case (Cons j js)
  show ?case
    unfolding fold_Cons comp_def
    by (subst bstep_node_def) (simp add: Let_def Cons.IH del: upt_Suc)
qed

lemma bstep_unfold:
  "bstep deg nx nz nrx nrz nrq nuq tau_root cf g inp =
   (let x = fst (collocated_states deg (vertsplit (BSTEP_V inp) (v_offset deg nx nz)));
        z = fst (snd (collocated_states deg (vertsplit (BSTEP_V inp) (v_offset deg nx nz))));
        rx = fst (collocated_states deg (vertsplit (BSTEP_RV0 inp) (v_offset deg nrx nrz)));
        rz = fst (snd (collocated_states deg
               (vertsplit (BSTEP_RV0 inp) (v_offset deg nrx nrz))));
        tt = map (\<lambda>d. BSTEP_T0 inp + BSTEP_H inp * tau_root ! d) [0..<deg + 1];
        G = (\<lambda>j. g (tt ! j) (x ! j) (z ! j) (BSTEP_P inp) (BSTEP_U inp) (rx ! j) (rz ! j)
                  (BSTEP_RP inp))
    in \<lparr>BSTEP_RXF = fold (\<lambda>j acc. vadd acc
                          (scal (- coef_B cf ! j * coef_C cf ! 0 ! j) (rx ! j)))
                        [1..<deg + 1] (scal (coef_D cf ! 0) (BSTEP_RX0 inp)),
        BSTEP_RVF = concat (map (\<lambda>j.
            vsub (scal (BSTEP_H inp * coef_B cf ! j) (RDAE_RODE (G j)))
              (fold (\<lambda>r rxp_j. vadd rxp_j (scal (coef_B cf ! r * coef_C cf ! j ! r) (rx ! r)))
                 [1..<deg + 1] (scal (- coef_D cf ! j) (BSTEP_RX0 inp)))
            @ RDAE_RALG (G j)) [1..<deg + 1]),
        BSTEP_RQF = fold (\<lambda>j acc. vadd acc
                          (scal (BSTEP_H inp * coef_B cf ! j) (RDAE_RQUAD (G j))))
                        [1..<deg + 1] (zeros nrq),
        BSTEP_UQF = fold (\<lambda>j acc. vadd acc
                          (scal (BSTEP_H inp * coef_B cf ! j) (RDAE_UQUAD (G j))))
                        [1..<deg + 1] (zeros nuq)\<rparr>)"
  unfolding bstep_def Let_def case_prod_beta bstep_fold
  by (simp add: concat_pairs del: upt_Suc)

lemma bstep_node_args:
  assumes "1 \<le> j" and "j \<le> deg"
  shows "g (map (\<lambda>d. BSTEP_T0 inp + BSTEP_H inp * tau_root ! d) [0..<deg + 1] ! j)
           (fst (collocated_states deg (vertsplit (BSTEP_V inp) (v_offset deg nx nz))) ! j)
           (fst (snd (collocated_states deg (vertsplit (BSTEP_V inp) (v_offset deg nx nz)))) ! j)
           (BSTEP_P inp) (BSTEP_U inp)
           (fst (collocated_states deg (vertsplit (BSTEP_RV0 inp) (v_offset deg nrx nrz))) ! j)
           (fst (snd (collocated_states deg
              (vertsplit (BSTEP_RV0 inp) (v_offset deg nrx nrz)))) ! j)
           (BSTEP_RP inp) =
         rdae_at_node nx nz nrx nrz tau_root g inp j"
proof -
  have "map (\<lambda>d. BSTEP_T0 inp + BSTEP_H inp * tau_root ! d) [0..<deg + 1] ! j =
        BSTEP_T0 inp + BSTEP_H inp * tau_root ! j"
    using assms by (simp del: upt_Suc)
  then show ?thesis
    using collocated_states_nodes [OF assms, of "BSTEP_V inp" nx nz]
      collocated_states_nodes [OF assms, of "BSTEP_RV0 inp" nrx nrz]
    by (simp add: rdae_at_node_def)
qed


lemma backward_block:
  assumes j: "1 \<le> j" "j \<le> deg"
    and rx0: "length (BSTEP_RX0 inp) = nrx"
    and rv: "length (BSTEP_RV0 inp) = deg * (nrx + nrz)"
    and rode: "length (RDAE_RODE (rdae_at_node nx nz nrx nrz tau_root g inp j)) = nrx"
  shows "vsub (scal (BSTEP_H inp * coef_B cf ! j)
             (RDAE_RODE (rdae_at_node nx nz nrx nrz tau_root g inp j)))
           (fold (\<lambda>r rxp_j. vadd rxp_j (scal (coef_B cf ! r * coef_C cf ! j ! r)
                (fst (collocated_states deg
                   (vertsplit (BSTEP_RV0 inp) (v_offset deg nrx nrz))) ! r)))
              [1..<deg + 1] (scal (- coef_D cf ! j) (BSTEP_RX0 inp)))
         @ RDAE_RALG (rdae_at_node nx nz nrx nrz tau_root g inp j) =
         backward_residual_block deg nx nz nrx nrz tau_root cf g inp j"
proof -
  let ?rx = "fst (collocated_states deg (vertsplit (BSTEP_RV0 inp) (v_offset deg nrx nrz)))"
  have xs: "?rx ! r = node_x nrx nrz (BSTEP_RV0 inp) r" if "1 \<le> r" "r \<le> deg" for r
    using collocated_states_nodes(1) [OF that] .
  have ls: "length (node_x nrx nrz (BSTEP_RV0 inp) r) = nrx" if "1 \<le> r" "r \<le> deg" for r
    using node_x_length [OF that rv] .
  have a: "length (scal (- coef_D cf ! j) (BSTEP_RX0 inp)) = nrx"
    using rx0 by (simp add: scal_length)
  have rxp: "fold (\<lambda>r rxp_j. vadd rxp_j (scal (coef_B cf ! r * coef_C cf ! j ! r) (?rx ! r)))
              [1..<deg + 1] (scal (- coef_D cf ! j) (BSTEP_RX0 inp)) =
        map (\<lambda>i. scal (- coef_D cf ! j) (BSTEP_RX0 inp) ! i +
               (\<Sum>r = 1..deg. (coef_B cf ! r * coef_C cf ! j ! r) *
                   node_x nrx nrz (BSTEP_RV0 inp) r ! i)) [0..<nrx]"
    by (rule weighted_sum_map [OF xs ls a])
  have "vsub (scal (BSTEP_H inp * coef_B cf ! j)
             (RDAE_RODE (rdae_at_node nx nz nrx nrz tau_root g inp j)))
          (map (\<lambda>i. scal (- coef_D cf ! j) (BSTEP_RX0 inp) ! i +
               (\<Sum>r = 1..deg. (coef_B cf ! r * coef_C cf ! j ! r) *
                   node_x nrx nrz (BSTEP_RV0 inp) r ! i)) [0..<nrx]) =
        map (\<lambda>i. BSTEP_H inp * coef_B cf ! j *
                 RDAE_RODE (rdae_at_node nx nz nrx nrz tau_root g inp j) ! i -
               backward_rxp deg nrx nrz cf inp j i) [0..<nrx]"
    using rode rx0
    by (subst vsub_scal_map [where n = nrx]) (simp_all add: backward_rxp_def scal_nth)
  then show ?thesis
    unfolding rxp by (simp add: backward_residual_block_def)
qed


text \<open>
  Claim C1. For a degree d \<ge> 1 and a backward DAE callable g (with rx0 of size nrx, rv of
  size d (nrx + nrz) and rode of size nrx), the equations output of the backward step is
  the stack, over the nodes j = 1, ..., d, of h B[j] rode_j - rxp_j followed by ralg_j,
  where rxp_j = -D[j] rx0 + sum over r = 1..d of (B[r] C[j][r]) rx_r: the weight of rx_r
  is the product B[r] C[j][r].
\<close>

theorem backward_residual:
  assumes "1 \<le> deg"
    and "length (BSTEP_RX0 inp) = nrx"
    and "length (BSTEP_RV0 inp) = deg * (nrx + nrz)"
    and "\<forall>j. 1 \<le> j \<and> j \<le> deg \<longrightarrow>
           length (RDAE_RODE (rdae_at_node nx nz nrx nrz tau_root g inp j)) = nrx"
  shows "BSTEP_RVF (bstep deg nx nz nrx nrz nrq nuq tau_root cf g inp) =
         concat (map (backward_residual_block deg nx nz nrx nrz tau_root cf g inp)
                   [1..<deg + 1])"
proof -
  let ?x = "fst (collocated_states deg (vertsplit (BSTEP_V inp) (v_offset deg nx nz)))"
  let ?z = "fst (snd (collocated_states deg (vertsplit (BSTEP_V inp) (v_offset deg nx nz))))"
  let ?rx = "fst (collocated_states deg (vertsplit (BSTEP_RV0 inp) (v_offset deg nrx nrz)))"
  let ?rz = "fst (snd (collocated_states deg
               (vertsplit (BSTEP_RV0 inp) (v_offset deg nrx nrz))))"
  let ?tt = "map (\<lambda>d. BSTEP_T0 inp + BSTEP_H inp * tau_root ! d) [0..<deg + 1]"
  let ?G = "\<lambda>j. g (?tt ! j) (?x ! j) (?z ! j) (BSTEP_P inp) (BSTEP_U inp) (?rx ! j) (?rz ! j)
              (BSTEP_RP inp)"
  let ?blk = "\<lambda>j. vsub (scal (BSTEP_H inp * coef_B cf ! j) (RDAE_RODE (?G j)))
              (fold (\<lambda>r rxp_j. vadd rxp_j (scal (coef_B cf ! r * coef_C cf ! j ! r) (?rx ! r)))
                 [1..<deg + 1] (scal (- coef_D cf ! j) (BSTEP_RX0 inp)))
            @ RDAE_RALG (?G j)"
  have rvf: "BSTEP_RVF (bstep deg nx nz nrx nrz nrq nuq tau_root cf g inp) =
             concat (map ?blk [1..<deg + 1])"
    unfolding bstep_unfold Let_def bstep_out.simps ..
  have blocks: "map ?blk [1..<deg + 1] =
        map (backward_residual_block deg nx nz nrx nrz tau_root cf g inp) [1..<deg + 1]"
  proof (rule map_cong [OF refl])
    fix j
    assume "j \<in> set [1..<deg + 1]"
    then have j: "1 \<le> j" "j \<le> deg" by (simp_all del: upt_Suc)
    have len: "length (RDAE_RODE (rdae_at_node nx nz nrx nrz tau_root g inp j)) = nrx"
      using assms(4) j by blast
    show "?blk j = backward_residual_block deg nx nz nrx nrz tau_root cf g inp j"
      unfolding bstep_node_args [OF j]
      by (rule backward_block [OF j assms(2,3) len])
  qed
  show ?thesis
    unfolding rvf blocks ..
qed

theorem backward_residual_witness:
  "(1::nat) \<le> 2 \<and>
   BSTEP_RVF (bstep 2 1 1 1 1 1 1 [0, 1/3, 1]
     \<lparr>coef_C = [[- 4, - 2, 2], [9 / 2, 3 / 2, - (9 / 2)], [- (1 / 2), 1 / 2, 5 / 2]],
      coef_D = [0, 0, 1], coef_B = [0, 3 / 4, 1 / 4]\<rparr>
     (\<lambda>t x z p u rx rz rp. \<lparr>RDAE_RODE = [hd rx + hd z], RDAE_RALG = [hd rz - t],
        RDAE_RQUAD = [hd rx * hd p], RDAE_UQUAD = [hd rz * hd rp]\<rparr>)
     \<lparr>BSTEP_T0 = 0, BSTEP_H = 3, BSTEP_X = [1], BSTEP_P = [2], BSTEP_U = [],
      BSTEP_V = [2, 3, 4, 5], BSTEP_RX0 = [7], BSTEP_RP = [2], BSTEP_RV0 = [1, 2, 3, 4]\<rparr>) =
   [45 / 4, 1, 43 / 4, 1]"
  using backward_residual [of 2
     "\<lparr>BSTEP_T0 = 0, BSTEP_H = 3, BSTEP_X = [1], BSTEP_P = [2], BSTEP_U = [],
      BSTEP_V = [2, 3, 4, 5], BSTEP_RX0 = [7], BSTEP_RP = [2], BSTEP_RV0 = [1, 2, 3, 4]\<rparr>"
     1 1 1 1 "[0, 1/3, 1]"
     "\<lambda>t x z p u rx rz rp. \<lparr>RDAE_RODE = [hd rx + hd z], RDAE_RALG = [hd rz - t],
        RDAE_RQUAD = [hd rx * hd p], RDAE_UQUAD = [hd rz * hd rp]\<rparr>"
     1 1
     "\<lparr>coef_C = [[- 4, - 2, 2], [9 / 2, 3 / 2, - (9 / 2)], [- (1 / 2), 1 / 2, 5 / 2]],
      coef_D = [0, 0, 1], coef_B = [0, 3 / 4, 1 / 4]\<rparr>"]
  by (simp add: backward_residual_block_def backward_rxp_def rdae_at_node_def node_x_def
      node_z_def upt_rec numeral_2_eq_2)

text \<open>
  Claim C4. For a degree d \<ge> 1 and a backward DAE callable g, the backward step gives
  rxf = D[0] rx0 - sum over j = 1..d of B[j] C[0][j] rx_j,
  rqf = sum over j = 1..d of h B[j] rquad_j and uqf = sum over j = 1..d of h B[j] uquad_j,
  the last two as two outputs of their own.
\<close>

theorem backward_outputs:
  assumes "1 \<le> deg"
    and "length (BSTEP_RX0 inp) = nrx"
    and "length (BSTEP_RV0 inp) = deg * (nrx + nrz)"
    and "\<forall>j. 1 \<le> j \<and> j \<le> deg \<longrightarrow>
           length (RDAE_RQUAD (rdae_at_node nx nz nrx nrz tau_root g inp j)) = nrq"
    and "\<forall>j. 1 \<le> j \<and> j \<le> deg \<longrightarrow>
           length (RDAE_UQUAD (rdae_at_node nx nz nrx nrz tau_root g inp j)) = nuq"
  shows "BSTEP_RXF (bstep deg nx nz nrx nrz nrq nuq tau_root cf g inp) =
           map (\<lambda>i. coef_D cf ! 0 * BSTEP_RX0 inp ! i -
                     (\<Sum>j = 1..deg. coef_B cf ! j * coef_C cf ! 0 ! j *
                         node_x nrx nrz (BSTEP_RV0 inp) j ! i))
             [0..<nrx] \<and>
         BSTEP_RQF (bstep deg nx nz nrx nrz nrq nuq tau_root cf g inp) =
           map (\<lambda>i. \<Sum>j = 1..deg. BSTEP_H inp * coef_B cf ! j *
                       RDAE_RQUAD (rdae_at_node nx nz nrx nrz tau_root g inp j) ! i)
             [0..<nrq] \<and>
         BSTEP_UQF (bstep deg nx nz nrx nrz nrq nuq tau_root cf g inp) =
           map (\<lambda>i. \<Sum>j = 1..deg. BSTEP_H inp * coef_B cf ! j *
                       RDAE_UQUAD (rdae_at_node nx nz nrx nrz tau_root g inp j) ! i)
             [0..<nuq]"
proof -
  let ?x = "fst (collocated_states deg (vertsplit (BSTEP_V inp) (v_offset deg nx nz)))"
  let ?z = "fst (snd (collocated_states deg (vertsplit (BSTEP_V inp) (v_offset deg nx nz))))"
  let ?rx = "fst (collocated_states deg (vertsplit (BSTEP_RV0 inp) (v_offset deg nrx nrz)))"
  let ?rz = "fst (snd (collocated_states deg
               (vertsplit (BSTEP_RV0 inp) (v_offset deg nrx nrz))))"
  let ?tt = "map (\<lambda>d. BSTEP_T0 inp + BSTEP_H inp * tau_root ! d) [0..<deg + 1]"
  let ?G = "\<lambda>j. g (?tt ! j) (?x ! j) (?z ! j) (BSTEP_P inp) (BSTEP_U inp) (?rx ! j) (?rz ! j)
              (BSTEP_RP inp)"
  have G: "?G j = rdae_at_node nx nz nrx nrz tau_root g inp j" if "1 \<le> j" "j \<le> deg" for j
    by (rule bstep_node_args [OF that])
  have xs: "?rx ! r = node_x nrx nrz (BSTEP_RV0 inp) r" if "1 \<le> r" "r \<le> deg" for r
    using collocated_states_nodes(1) [OF that] .
  have ls: "length (node_x nrx nrz (BSTEP_RV0 inp) r) = nrx" if "1 \<le> r" "r \<le> deg" for r
    using node_x_length [OF that assms(3)] .
  have a: "length (scal (coef_D cf ! 0) (BSTEP_RX0 inp)) = nrx"
    using assms(2) by (simp add: scal_length)
  have "BSTEP_RXF (bstep deg nx nz nrx nrz nrq nuq tau_root cf g inp) =
        fold (\<lambda>j acc. vadd acc (scal (- coef_B cf ! j * coef_C cf ! 0 ! j) (?rx ! j)))
          [1..<deg + 1] (scal (coef_D cf ! 0) (BSTEP_RX0 inp))"
    unfolding bstep_unfold Let_def bstep_out.simps ..
  also have "\<dots> = map (\<lambda>i. scal (coef_D cf ! 0) (BSTEP_RX0 inp) ! i +
                 (\<Sum>j = 1..deg. (- coef_B cf ! j * coef_C cf ! 0 ! j) *
                     node_x nrx nrz (BSTEP_RV0 inp) j ! i)) [0..<nrx]"
    by (rule weighted_sum_map [OF xs ls a])
  also have "\<dots> = map (\<lambda>i. coef_D cf ! 0 * BSTEP_RX0 inp ! i -
                     (\<Sum>j = 1..deg. coef_B cf ! j * coef_C cf ! 0 ! j *
                         node_x nrx nrz (BSTEP_RV0 inp) j ! i)) [0..<nrx]"
    using assms(2) by (auto simp: scal_nth sum_negf)
  finally have rxf: "BSTEP_RXF (bstep deg nx nz nrx nrz nrq nuq tau_root cf g inp) =
           map (\<lambda>i. coef_D cf ! 0 * BSTEP_RX0 inp ! i -
                     (\<Sum>j = 1..deg. coef_B cf ! j * coef_C cf ! 0 ! j *
                         node_x nrx nrz (BSTEP_RV0 inp) j ! i)) [0..<nrx]" .
  have lrq: "length (RDAE_RQUAD (rdae_at_node nx nz nrx nrz tau_root g inp j)) = nrq"
    if "1 \<le> j" "j \<le> deg" for j
    using assms(4) that by blast
  have luq: "length (RDAE_UQUAD (rdae_at_node nx nz nrx nrz tau_root g inp j)) = nuq"
    if "1 \<le> j" "j \<le> deg" for j
    using assms(5) that by blast
  have "BSTEP_RQF (bstep deg nx nz nrx nrz nrq nuq tau_root cf g inp) =
        fold (\<lambda>j acc. vadd acc (scal (BSTEP_H inp * coef_B cf ! j) (RDAE_RQUAD (?G j))))
          [1..<deg + 1] (zeros nrq)"
    unfolding bstep_unfold Let_def bstep_out.simps ..
  also have "\<dots> = map (\<lambda>i. \<Sum>j = 1..deg. BSTEP_H inp * coef_B cf ! j *
                       RDAE_RQUAD (rdae_at_node nx nz nrx nrz tau_root g inp j) ! i)
             [0..<nrq]"
    by (rule accumulate_map [where q' = "\<lambda>j. RDAE_RQUAD
          (rdae_at_node nx nz nrx nrz tau_root g inp j)"]) (simp_all only: G lrq)
  finally have rqf: "BSTEP_RQF (bstep deg nx nz nrx nrz nrq nuq tau_root cf g inp) =
           map (\<lambda>i. \<Sum>j = 1..deg. BSTEP_H inp * coef_B cf ! j *
                       RDAE_RQUAD (rdae_at_node nx nz nrx nrz tau_root g inp j) ! i)
             [0..<nrq]" .
  have "BSTEP_UQF (bstep deg nx nz nrx nrz nrq nuq tau_root cf g inp) =
        fold (\<lambda>j acc. vadd acc (scal (BSTEP_H inp * coef_B cf ! j) (RDAE_UQUAD (?G j))))
          [1..<deg + 1] (zeros nuq)"
    unfolding bstep_unfold Let_def bstep_out.simps ..
  also have "\<dots> = map (\<lambda>i. \<Sum>j = 1..deg. BSTEP_H inp * coef_B cf ! j *
                       RDAE_UQUAD (rdae_at_node nx nz nrx nrz tau_root g inp j) ! i)
             [0..<nuq]"
    by (rule accumulate_map [where q' = "\<lambda>j. RDAE_UQUAD
          (rdae_at_node nx nz nrx nrz tau_root g inp j)"]) (simp_all only: G luq)
  finally have uqf: "BSTEP_UQF (bstep deg nx nz nrx nrz nrq nuq tau_root cf g inp) =
           map (\<lambda>i. \<Sum>j = 1..deg. BSTEP_H inp * coef_B cf ! j *
                       RDAE_UQUAD (rdae_at_node nx nz nrx nrz tau_root g inp j) ! i)
             [0..<nuq]" .
  show ?thesis
    using rxf rqf uqf by (intro conjI)
qed


theorem backward_outputs_witness:
  "(1::nat) \<le> 2 \<and>
   BSTEP_RXF (bstep 2 1 1 1 1 1 1 [0, 1/3, 1]
     \<lparr>coef_C = [[- 4, - 2, 2], [9 / 2, 3 / 2, - (9 / 2)], [- (1 / 2), 1 / 2, 5 / 2]],
      coef_D = [0, 0, 1], coef_B = [0, 3 / 4, 1 / 4]\<rparr>
     (\<lambda>t x z p u rx rz rp. \<lparr>RDAE_RODE = [hd rx + hd z], RDAE_RALG = [hd rz - t],
        RDAE_RQUAD = [hd rx * hd p], RDAE_UQUAD = [hd rz * hd rp]\<rparr>)
     \<lparr>BSTEP_T0 = 0, BSTEP_H = 3, BSTEP_X = [1], BSTEP_P = [2], BSTEP_U = [],
      BSTEP_V = [2, 3, 4, 5], BSTEP_RX0 = [7], BSTEP_RP = [2], BSTEP_RV0 = [1, 2, 3, 4]\<rparr>) =
   [0] \<and>
   BSTEP_RQF (bstep 2 1 1 1 1 1 1 [0, 1/3, 1]
     \<lparr>coef_C = [[- 4, - 2, 2], [9 / 2, 3 / 2, - (9 / 2)], [- (1 / 2), 1 / 2, 5 / 2]],
      coef_D = [0, 0, 1], coef_B = [0, 3 / 4, 1 / 4]\<rparr>
     (\<lambda>t x z p u rx rz rp. \<lparr>RDAE_RODE = [hd rx + hd z], RDAE_RALG = [hd rz - t],
        RDAE_RQUAD = [hd rx * hd p], RDAE_UQUAD = [hd rz * hd rp]\<rparr>)
     \<lparr>BSTEP_T0 = 0, BSTEP_H = 3, BSTEP_X = [1], BSTEP_P = [2], BSTEP_U = [],
      BSTEP_V = [2, 3, 4, 5], BSTEP_RX0 = [7], BSTEP_RP = [2], BSTEP_RV0 = [1, 2, 3, 4]\<rparr>) =
   [9] \<and>
   BSTEP_UQF (bstep 2 1 1 1 1 1 1 [0, 1/3, 1]
     \<lparr>coef_C = [[- 4, - 2, 2], [9 / 2, 3 / 2, - (9 / 2)], [- (1 / 2), 1 / 2, 5 / 2]],
      coef_D = [0, 0, 1], coef_B = [0, 3 / 4, 1 / 4]\<rparr>
     (\<lambda>t x z p u rx rz rp. \<lparr>RDAE_RODE = [hd rx + hd z], RDAE_RALG = [hd rz - t],
        RDAE_RQUAD = [hd rx * hd p], RDAE_UQUAD = [hd rz * hd rp]\<rparr>)
     \<lparr>BSTEP_T0 = 0, BSTEP_H = 3, BSTEP_X = [1], BSTEP_P = [2], BSTEP_U = [],
      BSTEP_V = [2, 3, 4, 5], BSTEP_RX0 = [7], BSTEP_RP = [2], BSTEP_RV0 = [1, 2, 3, 4]\<rparr>) =
   [15]"
  using backward_outputs [of 2
     "\<lparr>BSTEP_T0 = 0, BSTEP_H = 3, BSTEP_X = [1], BSTEP_P = [2], BSTEP_U = [],
      BSTEP_V = [2, 3, 4, 5], BSTEP_RX0 = [7], BSTEP_RP = [2], BSTEP_RV0 = [1, 2, 3, 4]\<rparr>"
     1 1 1 1 "[0, 1/3, 1]"
     "\<lambda>t x z p u rx rz rp. \<lparr>RDAE_RODE = [hd rx + hd z], RDAE_RALG = [hd rz - t],
        RDAE_RQUAD = [hd rx * hd p], RDAE_UQUAD = [hd rz * hd rp]\<rparr>"
     1 1
     "\<lparr>coef_C = [[- 4, - 2, 2], [9 / 2, 3 / 2, - (9 / 2)], [- (1 / 2), 1 / 2, 5 / 2]],
      coef_D = [0, 0, 1], coef_B = [0, 3 / 4, 1 / 4]\<rparr>"]
  by (simp add: rdae_at_node_def node_x_def node_z_def upt_rec numeral_2_eq_2)

lemma setupFG_valid:
  assumes "1 \<le> d" and "scheme = ''radau'' \<or> scheme = ''legendre''"
  shows "setupFG points dm d scheme f g =
         Inr \<lparr>step_F = fstep (nat d) (dim_nx dm) (dim_nz dm) (dim_nq dm)
                  (0 # points (nat d) scheme)
                  (collocation_coefficients (0 # points (nat d) scheme) scheme (nat d)) f,
              step_G = map_option
                  (bstep (nat d) (dim_nx dm) (dim_nz dm) (dim_nrx dm) (dim_nrz dm)
                     (dim_nrq dm) (dim_nuq dm) (0 # points (nat d) scheme)
                     (collocation_coefficients (0 # points (nat d) scheme) scheme (nat d)))
                  g\<rparr>"
  using assms
  by (cases g) (auto simp: setupFG_def collocation_points_def Let_def)

section \<open>Properties of configuration and persistence\<close>

text \<open>
  Claim C7. A configuration whose degree is below 1 fails with InvalidDegree, and one
  with a degree of at least 1 and a scheme name other than radau and legendre fails
  with InvalidScheme (by section 4.1 the degree is looked at first, the scheme
  otherwise, so a configuration with both wrong reports the degree). Both come out of
  init itself, from the first statement of setupFG, where no coefficient has been
  derived and no step function exists yet; a valid configuration gives the step
  functions.
\<close>

theorem invalid_configuration_rejected:
  "(interpolation_order (read_options to_int to_string opts) < 1 \<longrightarrow>
      init to_int to_string points dm f g opts = Inl InvalidDegree) \<and>
   (1 \<le> interpolation_order (read_options to_int to_string opts) \<and>
    collocation_scheme (read_options to_int to_string opts) \<noteq> ''radau'' \<and>
    collocation_scheme (read_options to_int to_string opts) \<noteq> ''legendre'' \<longrightarrow>
      init to_int to_string points dm f g opts = Inl InvalidScheme) \<and>
   (1 \<le> interpolation_order (read_options to_int to_string opts) \<and>
    (collocation_scheme (read_options to_int to_string opts) = ''radau'' \<or>
     collocation_scheme (read_options to_int to_string opts) = ''legendre'') \<longrightarrow>
      (\<exists>st. init to_int to_string points dm f g opts = Inr st)) \<and>
   (collocation_scheme (read_options to_int to_string opts) \<noteq> ''radau'' \<and>
    collocation_scheme (read_options to_int to_string opts) \<noteq> ''legendre'' \<longrightarrow>
      init to_int to_string points dm f g opts = Inl InvalidDegree \<or>
      init to_int to_string points dm f g opts = Inl InvalidScheme)"
  by (auto simp: init_def setupFG_def collocation_points_def Let_def)

theorem invalid_configuration_rejected_witness:
  "init (\<lambda>v. case v of Inl i \<Rightarrow> i | Inr s \<Rightarrow> 0) (\<lambda>v. case v of Inl i \<Rightarrow> [] | Inr s \<Rightarrow> s)
     (\<lambda>d s. replicate d 1)
     \<lparr>dim_nx = 1, dim_nz = 0, dim_nq = 0, dim_nrx = 0, dim_nrz = 0, dim_nrq = 0, dim_nuq = 0\<rparr>
     (\<lambda>t x z p u. \<lparr>DAE_ODE = x, DAE_ALG = [], DAE_QUAD = []\<rparr>) None
     [(''interpolation_order'', Inl 0)] = Inl InvalidDegree \<and>
   init (\<lambda>v. case v of Inl i \<Rightarrow> i | Inr s \<Rightarrow> 0) (\<lambda>v. case v of Inl i \<Rightarrow> [] | Inr s \<Rightarrow> s)
     (\<lambda>d s. replicate d 1)
     \<lparr>dim_nx = 1, dim_nz = 0, dim_nq = 0, dim_nrx = 0, dim_nrz = 0, dim_nrq = 0, dim_nuq = 0\<rparr>
     (\<lambda>t x z p u. \<lparr>DAE_ODE = x, DAE_ALG = [], DAE_QUAD = []\<rparr>) None
     [(''collocation_scheme'', Inr ''gauss''), (''interpolation_order'', Inl 2)] =
     Inl InvalidScheme"
  using invalid_configuration_rejected [of "\<lambda>v. case v of Inl i \<Rightarrow> i | Inr s \<Rightarrow> 0"
      "\<lambda>v. case v of Inl i \<Rightarrow> [] | Inr s \<Rightarrow> s" "[(''interpolation_order'', Inl 0)]"
      "\<lambda>d s. replicate d 1"
      "\<lparr>dim_nx = 1, dim_nz = 0, dim_nq = 0, dim_nrx = 0, dim_nrz = 0, dim_nrq = 0, dim_nuq = 0\<rparr>"
      "\<lambda>t x z p u. \<lparr>DAE_ODE = x, DAE_ALG = [], DAE_QUAD = []\<rparr>" None]
    invalid_configuration_rejected [of "\<lambda>v. case v of Inl i \<Rightarrow> i | Inr s \<Rightarrow> 0"
      "\<lambda>v. case v of Inl i \<Rightarrow> [] | Inr s \<Rightarrow> s"
      "[(''collocation_scheme'', Inr ''gauss''), (''interpolation_order'', Inl 2)]"
      "\<lambda>d s. replicate d 1"
      "\<lparr>dim_nx = 1, dim_nz = 0, dim_nq = 0, dim_nrx = 0, dim_nrz = 0, dim_nrq = 0, dim_nuq = 0\<rparr>"
      "\<lambda>t x z p u. \<lparr>DAE_ODE = x, DAE_ALG = [], DAE_QUAD = []\<rparr>" None]
  by (simp add: read_options_def read_option_def)


lemma serialize_body_items:
  "serialize_body base_out c s =
   base_out c s @
   [Version ''Collocation'' 1,
    Pack_int ''Collocation::deg'' (obj_deg c),
    Pack_string ''Collocation::collocation_scheme'' (obj_collocation_scheme c),
    Pack_Function ''Collocation::f'' (obj_f c),
    Pack_Function ''Collocation::g'' (obj_g c)]"
  by (simp add: serialize_body_def version_out_def pack_int_def pack_string_def
      pack_Function_def)

lemma versions_in_append: "versions_in (r @ r') = versions_in r @ versions_in r'"
  by (induction r rule: versions_in.induct) simp_all

lemma ints_in_append: "ints_in (r @ r') = ints_in r @ ints_in r'"
  by (induction r rule: ints_in.induct) simp_all

lemma strings_in_append: "strings_in (r @ r') = strings_in r @ strings_in r'"
  by (induction r rule: strings_in.induct) simp_all

lemma bools_in_append: "bools_in (r @ r') = bools_in r @ bools_in r'"
  by (induction r rule: bools_in.induct) simp_all

lemma functions_in_append: "functions_in (r @ r') = functions_in r @ functions_in r'"
  by (induction r rule: functions_in.induct) simp_all

lemma functions_in_Pack: "functions_in [Pack_Function n x] = opt_list x"
  by (cases x) (simp_all add: opt_list_def)

text \<open>
  Whatever the base class writes, the record holds the DAE callable f that
  serialize_body packs; when f is neither of the step relations, the record is not the
  one the specification lists.
\<close>

lemma record_not_as_claimed:
  assumes "obj_f c = Some f" and "Some f \<noteq> obj_F c" and "Some f \<noteq> obj_G c"
  shows "\<not> record_as_claimed c (serialize_body base_out c s)"
proof
  assume "record_as_claimed c (serialize_body base_out c s)"
  then have eq: "functions_in (serialize_body base_out c s) =
      opt_list (obj_F c) @ opt_list (obj_G c)"
    by (simp add: record_as_claimed_def)
  have "f \<in> set (functions_in (serialize_body base_out c s))"
    using assms(1) by (simp add: serialize_body_items functions_in_append)
  moreover have "f \<notin> set (opt_list (obj_F c) @ opt_list (obj_G c))"
    using assms(2,3) by (auto simp: opt_list_def split: option.splits)
  ultimately show False
    using eq by simp
qed

lemma base_round_trip:
  "base_deserialize (base_serialize_body c [] @ rest) =
   Inr (\<lparr>obj_deg = 0, obj_collocation_scheme = [], obj_f = None, obj_g = None,
         obj_F = obj_F c, obj_G = obj_G c\<rparr>, rest)"
  by (cases "obj_G c")
     (simp_all add: base_deserialize_def base_serialize_body_def pack_Function_def
        pack_bool_def unpack_Function_def unpack_bool_def)

lemma deserialize_restores:
  assumes "\<And>rest. base_in (base_out c s0 @ rest) = Inr (cb, rest)"
    and "obj_F cb = obj_F c" and "obj_G cb = obj_G c"
  shows "deserialize base_in (serialize_body base_out c s0) = Inr (c, [])"
proof -
  have "deserialize base_in (serialize_body base_out c s0) =
         Inr (cb\<lparr>obj_deg := obj_deg c,
                  obj_collocation_scheme := obj_collocation_scheme c,
                  obj_f := obj_f c, obj_g := obj_g c\<rparr>, [])"
    unfolding serialize_body_items
    by (simp add: deserialize_def assms(1) version_in_def unpack_int_def unpack_string_def
        unpack_Function_def)
  moreover have "cb\<lparr>obj_deg := obj_deg c,
                  obj_collocation_scheme := obj_collocation_scheme c,
                  obj_f := obj_f c, obj_g := obj_g c\<rparr> = c"
    using assms(2,3) by (intro Collocation.equality) simp_all
  ultimately show ?thesis by simp
qed

text \<open>
  Claim C8, as stated, fails. Take an object with the DAE callables f, g and the step
  relations fstep, bstep, and let the base class write the forward step relation, the
  has-backward flag and the backward step relation, as the specification lists them.
  The record that serialize_body writes then holds the functions fstep, bstep, f, g: it
  is not the listed record, which has no place for f and g. (By the lemma
  record_not_as_claimed the same holds whatever the base class writes.)
\<close>

theorem persisted_record_counterexample:
  "\<not> record_as_claimed
       \<lparr>obj_deg = 3, obj_collocation_scheme = ''radau'', obj_f = Some ''f'',
        obj_g = Some ''g'', obj_F = Some ''fstep'', obj_G = Some ''bstep''\<rparr>
       (serialize_body base_serialize_body
          \<lparr>obj_deg = 3, obj_collocation_scheme = ''radau'', obj_f = Some ''f'',
           obj_g = Some ''g'', obj_F = Some ''fstep'', obj_G = Some ''bstep''\<rparr> []) \<and>
   functions_in
       (serialize_body base_serialize_body
          \<lparr>obj_deg = 3, obj_collocation_scheme = ''radau'', obj_f = Some ''f'',
           obj_g = Some ''g'', obj_F = Some ''fstep'', obj_G = Some ''bstep''\<rparr> []) =
     [''fstep'', ''bstep'', ''f'', ''g'']"
  by (simp add: record_as_claimed_def serialize_body_items base_serialize_body_def
      pack_Function_def pack_bool_def opt_list_def)

text \<open>
  Claim C8, amended. The persisted record consists of the part of the base class
  followed by the version tag 1, the degree, the scheme name, the DAE callable f and the
  backward DAE callable g (null when there is none). When the base class writes the
  forward step relation, the has-backward flag and the backward step relation if
  present, the record holds one version tag, the degree, the scheme name, the flag, and
  the functions F, G (if present), f and g (if present). Restoring from the record of an
  object gives that object again, step relations included, with no coefficient
  computed: for every base class that restores its own members, and so for the one
  above. Loading a record whose version tag is not 1 fails with
  SerializationVersionMismatch.
\<close>

theorem persisted_record:
  assumes "\<And>rest. base_in (base_out c s0 @ rest) = Inr (cb, rest)"
    and "obj_F cb = obj_F c" and "obj_G cb = obj_G c"
    and "base_in s = Inr (cb', Version ''Collocation'' v # rest')" and "v \<noteq> 1"
  shows "serialize_body base_out c s0 =
           base_out c s0 @
           [Version ''Collocation'' 1,
            Pack_int ''Collocation::deg'' (obj_deg c),
            Pack_string ''Collocation::collocation_scheme'' (obj_collocation_scheme c),
            Pack_Function ''Collocation::f'' (obj_f c),
            Pack_Function ''Collocation::g'' (obj_g c)] \<and>
         deserialize base_in (serialize_body base_out c s0) = Inr (c, []) \<and>
         deserialize base_in s = Inl SerializationVersionMismatch \<and>
         versions_in (serialize_body base_serialize_body c []) = [1] \<and>
         ints_in (serialize_body base_serialize_body c []) = [obj_deg c] \<and>
         strings_in (serialize_body base_serialize_body c []) = [obj_collocation_scheme c] \<and>
         bools_in (serialize_body base_serialize_body c []) = [obj_G c \<noteq> None] \<and>
         functions_in (serialize_body base_serialize_body c []) =
           opt_list (obj_F c) @ opt_list (obj_G c) @ opt_list (obj_f c) @ opt_list (obj_g c) \<and>
         deserialize base_deserialize (serialize_body base_serialize_body c []) = Inr (c, [])"
proof -
  have a: "deserialize base_in (serialize_body base_out c s0) = Inr (c, [])"
    by (rule deserialize_restores [of base_in base_out c s0 cb, OF assms(1,2,3)])
  have b: "deserialize base_in s = Inl SerializationVersionMismatch"
    using assms(4,5) by (simp add: deserialize_def version_in_def)
  have base: "base_serialize_body c [] =
      [Pack_Function ''FixedStepIntegrator::F'' (obj_F c),
       Pack_bool ''FixedStepIntegrator::has_G'' (obj_G c \<noteq> None)] @
      (if obj_G c \<noteq> None then [Pack_Function ''FixedStepIntegrator::G'' (obj_G c)] else [])"
    by (simp add: base_serialize_body_def pack_Function_def pack_bool_def)
  have fs: "functions_in (serialize_body base_serialize_body c []) =
           opt_list (obj_F c) @ opt_list (obj_G c) @ opt_list (obj_f c) @ opt_list (obj_g c)"
    unfolding serialize_body_items base
    by (cases "obj_F c"; cases "obj_G c"; cases "obj_f c"; cases "obj_g c")
       (simp_all add: opt_list_def)
  have kinds: "versions_in (serialize_body base_serialize_body c []) = [1]"
    "ints_in (serialize_body base_serialize_body c []) = [obj_deg c]"
    "strings_in (serialize_body base_serialize_body c []) = [obj_collocation_scheme c]"
    "bools_in (serialize_body base_serialize_body c []) = [obj_G c \<noteq> None]"
    unfolding serialize_body_items base by simp_all
  have c: "deserialize base_deserialize (serialize_body base_serialize_body c []) = Inr (c, [])"
    by (rule deserialize_restores [of base_deserialize base_serialize_body c "[]"
          "\<lparr>obj_deg = 0, obj_collocation_scheme = [], obj_f = None, obj_g = None,
            obj_F = obj_F c, obj_G = obj_G c\<rparr>", OF base_round_trip]) simp_all
  show ?thesis
    using a b fs kinds c by (simp add: serialize_body_items)
qed

theorem persisted_record_witness:
  "deserialize base_deserialize
     (serialize_body base_serialize_body
        \<lparr>obj_deg = 3, obj_collocation_scheme = ''radau'', obj_f = Some ''f'',
         obj_g = Some ''g'', obj_F = Some ''fstep'', obj_G = Some ''bstep''\<rparr> []) =
   Inr (\<lparr>obj_deg = 3, obj_collocation_scheme = ''radau'', obj_f = Some ''f'',
         obj_g = Some ''g'', obj_F = Some ''fstep'', obj_G = Some ''bstep''\<rparr>, []) \<and>
   deserialize base_deserialize
     [Pack_Function ''FixedStepIntegrator::F'' (Some ''fstep''),
      Pack_bool ''FixedStepIntegrator::has_G'' False,
      Version ''Collocation'' 2, Pack_int ''Collocation::deg'' 3] =
   Inl SerializationVersionMismatch"
proof -
  let ?c = "\<lparr>obj_deg = 3, obj_collocation_scheme = ''radau'', obj_f = Some ''f'',
         obj_g = Some ''g'', obj_F = Some ''fstep'', obj_G = Some ''bstep''\<rparr>"
  let ?cb = "\<lparr>obj_deg = 0, obj_collocation_scheme = [], obj_f = None, obj_g = None,
         obj_F = Some ''fstep'', obj_G = Some ''bstep''\<rparr>"
  let ?cb' = "\<lparr>obj_deg = 0, obj_collocation_scheme = [], obj_f = None, obj_g = None,
         obj_F = Some ''fstep'', obj_G = None :: string option\<rparr>"
  have h1: "base_deserialize (base_serialize_body ?c [] @ rest) = Inr (?cb, rest)"
    for rest :: "string item list"
    using base_round_trip [of ?c rest] by simp
  have h2: "obj_F ?cb = obj_F ?c" and h3: "obj_G ?cb = obj_G ?c"
    by simp_all
  have h4: "base_deserialize
       [Pack_Function ''FixedStepIntegrator::F'' (Some ''fstep''),
        Pack_bool ''FixedStepIntegrator::has_G'' False,
        Version ''Collocation'' 2, Pack_int ''Collocation::deg'' 3] =
      Inr (?cb', Version ''Collocation'' 2 # [Pack_int ''Collocation::deg'' 3])"
    by (simp add: base_deserialize_def unpack_Function_def unpack_bool_def)
  have h5: "(2::int) \<noteq> 1" by simp
  note r = persisted_record [of base_deserialize base_serialize_body ?c "[]" ?cb, OF h1 h2 h3 h4 h5]
  show ?thesis
    using r [THEN conjunct2, THEN conjunct1] r [THEN conjunct2, THEN conjunct2, THEN conjunct1]
    by simp
qed

end
